theory Spec2Isabelle
  imports Complex_Main "HOL-Library.Sublist"
begin

section \<open>Python text operations used by the agent\<close>

text \<open>
  Python strings are modelled as \<^typ>\<open>string\<close>; a character stands for the code point
  of the same number, so the model covers text whose code points are below 256.
  \<open>str.isspace\<close> and the line boundaries of \<open>str.splitlines\<close> are the ones Python
  defines in that range.
\<close>

definition is_space :: "char \<Rightarrow> bool" where
  "is_space c = (c \<in> set
     [CHR 0x09, CHR 0x0A, CHR 0x0B, CHR 0x0C, CHR 0x0D, CHR 0x1C, CHR 0x1D, CHR 0x1E,
      CHR 0x1F, CHR 0x20, CHR 0x85, CHR 0xA0])"

definition is_linebreak :: "char \<Rightarrow> bool" where
  "is_linebreak c = (c \<in> set
     [CHR 0x0A, CHR 0x0B, CHR 0x0C, CHR 0x0D, CHR 0x1C, CHR 0x1D, CHR 0x1E, CHR 0x85])"

definition strip :: "string \<Rightarrow> string" where
  "strip s = rev (dropWhile is_space (rev (dropWhile is_space s)))"

text \<open>\<open>str.splitlines\<close>: \<open>cur\<close> is the current line, reversed. A carriage return followed
  by a line feed is one boundary; no empty last line is produced.\<close>

fun splitlines_from :: "string \<Rightarrow> string \<Rightarrow> string list" where
  "splitlines_from cur [] = (if cur = [] then [] else [rev cur])"
| "splitlines_from cur (c # cs) =
     (if c = CHR 0x0D then
        (case cs of
           [] \<Rightarrow> [rev cur]
         | d # ds \<Rightarrow> if d = CHR 0x0A then rev cur # splitlines_from [] ds
                    else rev cur # splitlines_from [] cs)
      else if is_linebreak c then rev cur # splitlines_from [] cs
      else splitlines_from (c # cur) cs)"

definition splitlines :: "string \<Rightarrow> string list" where
  "splitlines s = splitlines_from [] s"

definition startswith :: "string \<Rightarrow> string \<Rightarrow> bool" where
  "startswith s p = prefix p s"

text \<open>\<open>pat in txt\<close> for strings: \<open>pat\<close> occurs as a contiguous run of \<open>txt\<close>.\<close>

fun contains :: "string \<Rightarrow> string \<Rightarrow> bool" where
  "contains [] pat = (pat = [])"
| "contains (c # cs) pat = (prefix pat (c # cs) \<or> contains cs pat)"

text \<open>Text-mode reading translates \<open>\r\n\<close> and a lone \<open>\r\<close> to \<open>\n\<close>.\<close>

fun universal_newlines :: "string \<Rightarrow> string" where
  "universal_newlines [] = []"
| "universal_newlines (c # cs) =
     (if c = CHR 0x0D then
        (case cs of
           [] \<Rightarrow> [CHR 0x0A]
         | d # ds \<Rightarrow> if d = CHR 0x0A then CHR 0x0A # universal_newlines ds
                    else CHR 0x0A # universal_newlines cs)
      else c # universal_newlines cs)"


section \<open>Exceptions and the file system\<close>

text \<open>The exceptions the modelled code can meet; all are subclasses of \<open>Exception\<close>.\<close>

datatype exn =
    FileNotFoundError | NotADirectoryError | IsADirectoryError | FileExistsError
  | UnicodeDecodeError | OSError | KeyError | TypeError | IndexError
  | JSONDecodeError | GithubException | CalledProcessError | ValueError | AttributeError

text \<open>
  A file system maps a resolved absolute path (its components below \<open>/\<close>) to a node:
  a directory, a file holding UTF-8 text, or a file whose bytes do not decode.
  Symbolic links are not modelled.
\<close>

type_synonym path = "string list"

datatype node = Dir | File string | Blob

type_synonym filesystem = "path \<Rightarrow> node option"

definition exists_path :: "filesystem \<Rightarrow> path \<Rightarrow> bool" where
  "exists_path fs p = (p = [] \<or> fs p \<noteq> None)"

definition is_dir :: "filesystem \<Rightarrow> path \<Rightarrow> bool" where
  "is_dir fs p = (p = [] \<or> fs p = Some Dir)"

definition read_text :: "filesystem \<Rightarrow> path \<Rightarrow> exn + string" where
  "read_text fs p =
     (if p = [] then Inl IsADirectoryError
      else case fs p of
        None \<Rightarrow> Inl FileNotFoundError
      | Some Dir \<Rightarrow> Inl IsADirectoryError
      | Some Blob \<Rightarrow> Inl UnicodeDecodeError
      | Some (File s) \<Rightarrow> Inr (universal_newlines s))"

text \<open>\<open>Path.write_text\<close>: the parent must be an existing directory and the target must
  not be a directory; the file is created or replaced.\<close>

definition write_text :: "filesystem \<Rightarrow> path \<Rightarrow> string \<Rightarrow> exn + filesystem" where
  "write_text fs p s =
     (if p = [] then Inl IsADirectoryError
      else if \<not> exists_path fs (butlast p) then Inl FileNotFoundError
      else if \<not> is_dir fs (butlast p) then Inl NotADirectoryError
      else if fs p = Some Dir then Inl IsADirectoryError
      else Inr (fs(p \<mapsto> File s)))"


section \<open>JSON values and \<open>json.loads\<close>\<close>

text \<open>
  The values \<open>json.loads\<close> returns. An integer literal becomes a Python \<open>int\<close>; a
  literal with a fraction or an exponent, and the words \<open>NaN\<close>, \<open>Infinity\<close> and
  \<open>-Infinity\<close>, become a \<open>float\<close>, kept here as its literal. A \<open>dict\<close> is the list
  of its items in insertion order, with distinct keys.
\<close>

datatype json =
    JNull | JBool bool | JInt int | JFloat string | JStr string
  | JArr "json list" | JObj "(string \<times> json) list"

text \<open>\<open>d[k] = v\<close>: an existing key keeps its place, a new key goes last.\<close>

fun dict_set :: "(string \<times> json) list \<Rightarrow> string \<Rightarrow> json \<Rightarrow> (string \<times> json) list" where
  "dict_set [] k v = [(k, v)]"
| "dict_set ((k', v') # kvs) k v =
     (if k' = k then (k, v) # kvs else (k', v') # dict_set kvs k v)"

fun dict_get :: "(string \<times> json) list \<Rightarrow> string \<Rightarrow> json option" where
  "dict_get [] k = None"
| "dict_get ((k', v') # kvs) k = (if k' = k then Some v' else dict_get kvs k)"

subsection \<open>Tokens\<close>

datatype token =
    TLBrace | TRBrace | TLBrack | TRBrack | TColon | TComma
  | TStr string | TVal json

text \<open>The states of the number grammar
  \<open>-?(0|[1-9][0-9]*)(\.[0-9]+)?([eE][-+]?[0-9]+)?\<close>.\<close>

datatype numst = NMinus | NZero | NInt | NDot | NFrac | NExp | NExpSign | NExpDig

datatype lexst =
    Idle
  | InStr string
  | InEsc string
  | InUni string nat nat
  | InNum numst string
  | InWord string json

definition is_digit :: "char \<Rightarrow> bool" where
  "is_digit c = ((48::nat) \<le> of_char c \<and> (of_char c :: nat) \<le> 57)"

definition digit_val :: "char \<Rightarrow> nat" where
  "digit_val c = of_char c - 48"

definition hex_val :: "char \<Rightarrow> nat option" where
  "hex_val c =
     (if is_digit c then Some (digit_val c)
      else if (97::nat) \<le> of_char c \<and> (of_char c :: nat) \<le> 102 then Some (of_char c - 87)
      else if (65::nat) \<le> of_char c \<and> (of_char c :: nat) \<le> 70 then Some (of_char c - 55)
      else None)"

definition is_json_ws :: "char \<Rightarrow> bool" where
  "is_json_ws c = (c = CHR 0x20 \<or> c = CHR 0x09 \<or> c = CHR 0x0A \<or> c = CHR 0x0D)"

text \<open>The value of a finished number; \<open>acc\<close> is its literal, reversed.\<close>

definition nat_of_digits :: "string \<Rightarrow> nat" where
  "nat_of_digits ds = foldl (\<lambda>n c. 10 * n + digit_val c) 0 ds"

definition int_of_literal :: "string \<Rightarrow> int" where
  "int_of_literal s =
     (case s of
        [] \<Rightarrow> 0
      | c # cs \<Rightarrow> if c = CHR ''-'' then - int (nat_of_digits cs) else int (nat_of_digits s))"

definition number_token :: "numst \<Rightarrow> string \<Rightarrow> token option" where
  "number_token st acc =
     (case st of
        NZero \<Rightarrow> Some (TVal (JInt (int_of_literal (rev acc))))
      | NInt \<Rightarrow> Some (TVal (JInt (int_of_literal (rev acc))))
      | NFrac \<Rightarrow> Some (TVal (JFloat (rev acc)))
      | NExpDig \<Rightarrow> Some (TVal (JFloat (rev acc)))
      | _ \<Rightarrow> None)"

text \<open>One character read where a token may start.\<close>

definition idle_step :: "char \<Rightarrow> (token list \<times> lexst) option" where
  "idle_step c =
     (if is_json_ws c then Some ([], Idle)
      else if c = CHR ''{'' then Some ([TLBrace], Idle)
      else if c = CHR ''}'' then Some ([TRBrace], Idle)
      else if c = CHR ''['' then Some ([TLBrack], Idle)
      else if c = CHR '']'' then Some ([TRBrack], Idle)
      else if c = CHR '':'' then Some ([TColon], Idle)
      else if c = CHR '','' then Some ([TComma], Idle)
      else if c = CHR 0x22 then Some ([], InStr [])
      else if c = CHR ''-'' then Some ([], InNum NMinus [c])
      else if c = CHR ''0'' then Some ([], InNum NZero [c])
      else if is_digit c then Some ([], InNum NInt [c])
      else if c = CHR ''n'' then Some ([], InWord ''ull'' JNull)
      else if c = CHR ''t'' then Some ([], InWord ''rue'' (JBool True))
      else if c = CHR ''f'' then Some ([], InWord ''alse'' (JBool False))
      else if c = CHR ''N'' then Some ([], InWord ''aN'' (JFloat ''NaN''))
      else if c = CHR ''I'' then Some ([], InWord ''nfinity'' (JFloat ''Infinity''))
      else None)"

text \<open>A number that cannot go on ends before \<open>c\<close>, and \<open>c\<close> is read afresh.\<close>

definition finish_number :: "numst \<Rightarrow> string \<Rightarrow> char \<Rightarrow> (token list \<times> lexst) option" where
  "finish_number st acc c =
     (case number_token st acc of
        None \<Rightarrow> None
      | Some t \<Rightarrow> (case idle_step c of
                     None \<Rightarrow> None
                   | Some (ts, st') \<Rightarrow> Some (t # ts, st')))"

definition is_exp_mark :: "char \<Rightarrow> bool" where
  "is_exp_mark c = (c = CHR ''e'' \<or> c = CHR ''E'')"

definition num_step :: "numst \<Rightarrow> string \<Rightarrow> char \<Rightarrow> (token list \<times> lexst) option" where
  "num_step st acc c =
     (case st of
        NMinus \<Rightarrow>
          if c = CHR ''0'' then Some ([], InNum NZero (c # acc))
          else if is_digit c then Some ([], InNum NInt (c # acc))
          else if c = CHR ''I'' then Some ([], InWord ''nfinity'' (JFloat ''-Infinity''))
          else None
      | NZero \<Rightarrow>
          if c = CHR ''.'' then Some ([], InNum NDot (c # acc))
          else if is_exp_mark c then Some ([], InNum NExp (c # acc))
          else finish_number st acc c
      | NInt \<Rightarrow>
          if is_digit c then Some ([], InNum NInt (c # acc))
          else if c = CHR ''.'' then Some ([], InNum NDot (c # acc))
          else if is_exp_mark c then Some ([], InNum NExp (c # acc))
          else finish_number st acc c
      | NDot \<Rightarrow> if is_digit c then Some ([], InNum NFrac (c # acc)) else None
      | NFrac \<Rightarrow>
          if is_digit c then Some ([], InNum NFrac (c # acc))
          else if is_exp_mark c then Some ([], InNum NExp (c # acc))
          else finish_number st acc c
      | NExp \<Rightarrow>
          if c = CHR ''+'' \<or> c = CHR ''-'' then Some ([], InNum NExpSign (c # acc))
          else if is_digit c then Some ([], InNum NExpDig (c # acc))
          else None
      | NExpSign \<Rightarrow> if is_digit c then Some ([], InNum NExpDig (c # acc)) else None
      | NExpDig \<Rightarrow>
          if is_digit c then Some ([], InNum NExpDig (c # acc))
          else finish_number st acc c)"

text \<open>
  Inside a string: a raw control character is refused (the decoder is strict), a
  backslash opens an escape. An escape \<open>\uXXXX\<close> names a code point; the text model ends
  at code point 255, so the model refuses an escape beyond it, where Python decodes it.
\<close>

definition esc_step :: "string \<Rightarrow> char \<Rightarrow> (token list \<times> lexst) option" where
  "esc_step acc c =
     (if c = CHR 0x22 \<or> c = CHR 0x5C \<or> c = CHR ''/'' then Some ([], InStr (c # acc))
      else if c = CHR ''b'' then Some ([], InStr (CHR 0x08 # acc))
      else if c = CHR ''f'' then Some ([], InStr (CHR 0x0C # acc))
      else if c = CHR ''n'' then Some ([], InStr (CHR 0x0A # acc))
      else if c = CHR ''r'' then Some ([], InStr (CHR 0x0D # acc))
      else if c = CHR ''t'' then Some ([], InStr (CHR 0x09 # acc))
      else if c = CHR ''u'' then Some ([], InUni acc 0 0)
      else None)"

definition uni_step :: "string \<Rightarrow> nat \<Rightarrow> nat \<Rightarrow> char \<Rightarrow> (token list \<times> lexst) option" where
  "uni_step acc k v c =
     (case hex_val c of
        None \<Rightarrow> None
      | Some d \<Rightarrow>
          (let v' = 16 * v + d in
           if k < 3 then Some ([], InUni acc (Suc k) v')
           else if v' < 256 then Some ([], InStr (char_of v' # acc))
           else None))"

definition lex_step :: "lexst \<Rightarrow> char \<Rightarrow> (token list \<times> lexst) option" where
  "lex_step st c =
     (case st of
        Idle \<Rightarrow> idle_step c
      | InStr acc \<Rightarrow>
          if c = CHR 0x22 then Some ([TStr (rev acc)], Idle)
          else if c = CHR 0x5C then Some ([], InEsc acc)
          else if (of_char c :: nat) < 32 then None
          else Some ([], InStr (c # acc))
      | InEsc acc \<Rightarrow> esc_step acc c
      | InUni acc k v \<Rightarrow> uni_step acc k v c
      | InNum ns acc \<Rightarrow> num_step ns acc c
      | InWord w v \<Rightarrow>
          (case w of
             [] \<Rightarrow> (case idle_step c of
                      None \<Rightarrow> None
                    | Some (ts, st') \<Rightarrow> Some (TVal v # ts, st'))
           | x # xs \<Rightarrow> if c = x then Some ([], InWord xs v) else None))"

fun tokenize_from :: "lexst \<Rightarrow> string \<Rightarrow> token list option" where
  "tokenize_from st [] =
     (case st of
        Idle \<Rightarrow> Some []
      | InNum ns acc \<Rightarrow> (case number_token ns acc of None \<Rightarrow> None | Some t \<Rightarrow> Some [t])
      | InWord w v \<Rightarrow> (if w = [] then Some [TVal v] else None)
      | _ \<Rightarrow> None)"
| "tokenize_from st (c # cs) =
     (case lex_step st c of
        None \<Rightarrow> None
      | Some (ts, st') \<Rightarrow>
          (case tokenize_from st' cs of
             None \<Rightarrow> None
           | Some rest \<Rightarrow> Some (ts @ rest)))"

subsection \<open>From tokens to a value\<close>

text \<open>An open container: an array with its items so far (last first), or an object
  with its items so far and the key whose value is being read.\<close>

datatype frame = FArr "json list" | FObj "(string \<times> json) list" string

datatype pstate =
    PValue | PFirst | PKeyFirst | PKey | PColon string | PAfter | PDone json

definition push_value :: "json \<Rightarrow> frame list \<Rightarrow> pstate \<times> frame list" where
  "push_value v stack =
     (case stack of
        [] \<Rightarrow> (PDone v, [])
      | FArr xs # st \<Rightarrow> (PAfter, FArr (v # xs) # st)
      | FObj kvs k # st \<Rightarrow> (PAfter, FObj (dict_set kvs k v) k # st))"

definition value_step :: "token \<Rightarrow> frame list \<Rightarrow> (pstate \<times> frame list) option" where
  "value_step t stack =
     (case t of
        TStr s \<Rightarrow> Some (push_value (JStr s) stack)
      | TVal v \<Rightarrow> Some (push_value v stack)
      | TLBrack \<Rightarrow> Some (PFirst, FArr [] # stack)
      | TLBrace \<Rightarrow> Some (PKeyFirst, FObj [] [] # stack)
      | _ \<Rightarrow> None)"

definition close_step :: "token \<Rightarrow> frame list \<Rightarrow> (pstate \<times> frame list) option" where
  "close_step t stack =
     (case (t, stack) of
        (TRBrack, FArr xs # st) \<Rightarrow> Some (push_value (JArr (rev xs)) st)
      | (TRBrace, FObj kvs k # st) \<Rightarrow> Some (push_value (JObj kvs) st)
      | _ \<Rightarrow> None)"

definition parse_step :: "pstate \<Rightarrow> frame list \<Rightarrow> token \<Rightarrow> (pstate \<times> frame list) option" where
  "parse_step ps stack t =
     (case ps of
        PValue \<Rightarrow> value_step t stack
      | PFirst \<Rightarrow> (if t = TRBrack then close_step t stack else value_step t stack)
      | PKeyFirst \<Rightarrow>
          (case t of
             TStr k \<Rightarrow> Some (PColon k, stack)
           | TRBrace \<Rightarrow> close_step t stack
           | _ \<Rightarrow> None)
      | PKey \<Rightarrow> (case t of TStr k \<Rightarrow> Some (PColon k, stack) | _ \<Rightarrow> None)
      | PColon k \<Rightarrow>
          (case (t, stack) of
             (TColon, FObj kvs k' # st) \<Rightarrow> Some (PValue, FObj kvs k # st)
           | _ \<Rightarrow> None)
      | PAfter \<Rightarrow>
          (case (t, stack) of
             (TComma, FArr xs # st) \<Rightarrow> Some (PValue, stack)
           | (TComma, FObj kvs k # st) \<Rightarrow> Some (PKey, stack)
           | _ \<Rightarrow> close_step t stack)
      | PDone v \<Rightarrow> None)"

fun parse_tokens :: "pstate \<Rightarrow> frame list \<Rightarrow> token list \<Rightarrow> json option" where
  "parse_tokens ps stack [] = (case ps of PDone v \<Rightarrow> Some v | _ \<Rightarrow> None)"
| "parse_tokens ps stack (t # ts) =
     (case parse_step ps stack t of
        None \<Rightarrow> None
      | Some (ps', stack') \<Rightarrow> parse_tokens ps' stack' ts)"

text \<open>
  \<open>json.loads\<close> on a \<open>str\<close>: one value, white space around it allowed, nothing else
  after it. Any failure is a \<open>JSONDecodeError\<close>. The interpreter's limits (the
  recursion depth on nested documents, the length of an integer literal) are not
  modelled.
\<close>

definition json_loads :: "string \<Rightarrow> exn + json" where
  "json_loads s =
     (case tokenize_from Idle s of
        None \<Rightarrow> Inl JSONDecodeError
      | Some ts \<Rightarrow>
          (case parse_tokens PValue [] ts of
             None \<Rightarrow> Inl JSONDecodeError
           | Some v \<Rightarrow> Inr v))"


section \<open>Paths as \<open>pathlib\<close> builds them\<close>

text \<open>A pure path: whether it starts at \<open>/\<close>, and its components. Parsing drops empty
  components and \<open>.\<close>, and keeps \<open>..\<close>.\<close>

datatype ppath = PPath bool "string list"

fun split_from :: "char \<Rightarrow> string \<Rightarrow> string \<Rightarrow> string list" where
  "split_from sep cur [] = [rev cur]"
| "split_from sep cur (c # cs) =
     (if c = sep then rev cur # split_from sep [] cs else split_from sep (c # cur) cs)"

definition parse_path :: "string \<Rightarrow> ppath" where
  "parse_path s =
     PPath (startswith s ''/'')
       (filter (\<lambda>c. c \<noteq> [] \<and> c \<noteq> ''.'') (split_from (CHR ''/'') [] s))"

text \<open>The operator \<open>/\<close> of \<open>pathlib\<close>: an absolute right operand replaces the left one.\<close>

fun joinpath :: "ppath \<Rightarrow> ppath \<Rightarrow> ppath" where
  "joinpath (PPath a ps) (PPath b qs) = (if b then PPath b qs else PPath a (ps @ qs))"

fun ppath_name :: "ppath \<Rightarrow> string" where
  "ppath_name (PPath a ps) = (if ps = [] then [] else last ps)"

text \<open>How the operating system walks one component from a resolved directory.\<close>

definition step_path :: "path \<Rightarrow> string \<Rightarrow> path" where
  "step_path cur c = (if c = ''..'' then butlast cur else cur @ [c])"

fun resolve :: "path \<Rightarrow> ppath \<Rightarrow> path" where
  "resolve wd (PPath a ps) = foldl step_path (if a then [] else wd) ps"

text \<open>\<open>full.split("/", 1)[1]\<close>: what follows the first slash.\<close>

definition after_first_slash :: "string \<Rightarrow> exn + string" where
  "after_first_slash s =
     (if CHR ''/'' \<in> set s then Inr (tl (dropWhile (\<lambda>c. c \<noteq> CHR ''/'') s))
      else Inl IndexError)"

definition rmtree :: "filesystem \<Rightarrow> path \<Rightarrow> filesystem" where
  "rmtree fs base = (\<lambda>p. if prefix base p then None else fs p)"

definition subtree :: "filesystem \<Rightarrow> path \<Rightarrow> filesystem" where
  "subtree fs base = (\<lambda>q. fs (base @ q))"

text \<open>\<open>mkdir(parents=True, exist_ok=True)\<close> along the components \<open>cs\<close> from the resolved
  directory \<open>cur\<close>: missing directories are created in order; a component that exists
  and is no directory raises, leaving what was created before it.\<close>

fun mkdir_parents :: "filesystem \<Rightarrow> path \<Rightarrow> string list \<Rightarrow> filesystem \<times> (exn + path)" where
  "mkdir_parents fs cur [] = (fs, Inr cur)"
| "mkdir_parents fs cur (c # cs) =
     (let nxt = step_path cur c in
      if is_dir fs nxt then mkdir_parents fs nxt cs
      else if exists_path fs nxt then
        (fs, Inl (if cs = [] then FileExistsError else NotADirectoryError))
      else mkdir_parents (fs(nxt \<mapsto> Dir)) nxt cs)"

definition has_nul :: "string list \<Rightarrow> bool" where
  "has_nul ps = (CHR 0x00 \<in> set (concat ps))"


section \<open>agent\_core.py: applying a candidate\<close>

text \<open>\<open>safe_write_file\<close>: \<open>wd\<close> is the process's working directory, \<open>repo_dir\<close> the
  working copy as the caller built it. The result is the file system afterwards and
  the exception raised, if any.\<close>

definition safe_write_file ::
    "filesystem \<Rightarrow> path \<Rightarrow> ppath \<Rightarrow> json \<Rightarrow> json \<Rightarrow> filesystem \<times> (exn + unit)" where
  "safe_write_file fs wd repo_dir relpath content =
     (case relpath of
        JStr r \<Rightarrow>
          (case joinpath repo_dir (parse_path r) of
             PPath a ps \<Rightarrow>
               if has_nul (butlast ps) then (fs, Inl ValueError)
               else
                 (case mkdir_parents fs (if a then [] else wd) (butlast ps) of
                    (fs1, Inl e) \<Rightarrow> (fs1, Inl e)
                  | (fs1, Inr parent) \<Rightarrow>
                      (case content of
                         JStr txt \<Rightarrow>
                           if ps = [] then (fs1, Inl IsADirectoryError)
                           else if has_nul [last ps] then (fs1, Inl ValueError)
                           else if is_dir fs1 (step_path parent (last ps))
                             then (fs1, Inl IsADirectoryError)
                           else (fs1(step_path parent (last ps) \<mapsto> File txt), Inr ())
                       | _ \<Rightarrow> (fs1, Inl TypeError))))
      | _ \<Rightarrow> (fs, Inl TypeError))"

text \<open>\<open>candidate[key]\<close> on a decoded JSON value.\<close>

definition subscript :: "json \<Rightarrow> string \<Rightarrow> exn + json" where
  "subscript v k =
     (case v of
        JObj kvs \<Rightarrow> (case dict_get kvs k of None \<Rightarrow> Inl KeyError | Some x \<Rightarrow> Inr x)
      | _ \<Rightarrow> Inl TypeError)"

definition apply_candidate :: "filesystem \<Rightarrow> path \<Rightarrow> ppath \<Rightarrow> json \<Rightarrow> filesystem \<times> bool" where
  "apply_candidate fs wd repo_dir candidate =
     (case subscript candidate ''file'' of
        Inl e \<Rightarrow> (fs, False)
      | Inr f \<Rightarrow>
          (case subscript candidate ''new_content'' of
             Inl e \<Rightarrow> (fs, False)
           | Inr c \<Rightarrow>
               (case safe_write_file fs wd repo_dir f c of
                  (fs1, Inl e) \<Rightarrow> (fs1, False)
                | (fs1, Inr u) \<Rightarrow> (fs1, True))))"


section \<open>evaluator.py and kai\_decision\_engine.py: the quality assessor\<close>

text \<open>
  A finished subprocess, and the two tools as the assessor sees them: run in a working
  copy, each either raises (it could not be started) or completes. The tools are taken
  to leave the file system as it is. Writing to the log is taken to succeed.
\<close>

record proc =
  returncode :: int
  stdout :: string
  stderr :: string

record tools =
  run_pytest :: "filesystem \<Rightarrow> path \<Rightarrow> exn + proc"
  run_flake8 :: "filesystem \<Rightarrow> path \<Rightarrow> exn + proc"

definition artifact :: "path \<Rightarrow> ppath \<Rightarrow> string \<Rightarrow> path" where
  "artifact wd repo_dir sfx = wd @ [''artifacts'', ppath_name repo_dir @ sfx]"

text \<open>The body of the first \<open>try\<close>: the value of \<open>tests_ok\<close> it leaves, or the exception.\<close>

definition pytest_block ::
    "tools \<Rightarrow> string \<Rightarrow> filesystem \<Rightarrow> path \<Rightarrow> ppath \<Rightarrow> filesystem \<times> (exn + bool)" where
  "pytest_block t sfx fs wd repo_dir =
     (let base = resolve wd repo_dir in
      if exists_path fs (base @ [''tests'']) \<or> exists_path fs (base @ [''pytest.ini'']) then
        (case run_pytest t fs base of
           Inl e \<Rightarrow> (fs, Inl e)
         | Inr r \<Rightarrow>
             (case write_text fs (artifact wd repo_dir sfx)
                     (stdout r @ [CHR 0x0A, CHR 0x0A] @ stderr r) of
                Inl e \<Rightarrow> (fs, Inl e)
              | Inr fs1 \<Rightarrow> (fs1, Inr (returncode r = 0))))
      else (fs, Inr True))"

text \<open>The body of the second \<open>try\<close>: the value of \<open>lint_count\<close> it leaves, or the
  exception.\<close>

definition flake8_block ::
    "tools \<Rightarrow> filesystem \<Rightarrow> path \<Rightarrow> ppath \<Rightarrow> filesystem \<times> (exn + int)" where
  "flake8_block t fs wd repo_dir =
     (case run_flake8 t fs (resolve wd repo_dir) of
        Inl e \<Rightarrow> (fs, Inl e)
      | Inr r \<Rightarrow>
          (let lint_out = strip (stdout r);
               lint_count = (if lint_out \<noteq> [] then int (length (splitlines lint_out)) else 0)
           in case write_text fs (artifact wd repo_dir ''_flake8.txt'') lint_out of
                Inl e \<Rightarrow> (fs, Inl e)
              | Inr fs1 \<Rightarrow> (fs1, Inr lint_count)))"

text \<open>\<open>compute_quality\<close> of \<open>evaluator.py\<close>: each \<open>except Exception\<close> replaces the
  exception of its block by a value.\<close>

definition compute_quality ::
    "tools \<Rightarrow> filesystem \<Rightarrow> path \<Rightarrow> ppath \<Rightarrow> filesystem \<times> (exn + bool \<times> int)" where
  "compute_quality t fs wd repo_dir =
     (case pytest_block t ''_pytest.txt'' fs wd repo_dir of
        (fs1, r1) \<Rightarrow>
          (let tests_ok = (case r1 of Inl e \<Rightarrow> False | Inr b \<Rightarrow> b) in
           case flake8_block t fs1 wd repo_dir of
             (fs2, r2) \<Rightarrow>
               (let lint_count = (case r2 of Inl e \<Rightarrow> 9999 | Inr n \<Rightarrow> n)
                in (fs2, Inr (tests_ok, lint_count)))))"

text \<open>\<open>compute_quality\<close> of \<open>kai_decision_engine.py\<close>: the same two blocks, another
  artifact name, and a log line in each handler.\<close>

definition de_compute_quality ::
    "tools \<Rightarrow> filesystem \<Rightarrow> path \<Rightarrow> ppath \<Rightarrow> filesystem \<times> (exn + bool \<times> int)" where
  "de_compute_quality t fs wd repo_dir =
     (case pytest_block t ''_pytest_output.txt'' fs wd repo_dir of
        (fs1, r1) \<Rightarrow>
          (let tests_ok = (case r1 of Inl e \<Rightarrow> False | Inr b \<Rightarrow> b) in
           case flake8_block t fs1 wd repo_dir of
             (fs2, r2) \<Rightarrow>
               (let lint_count = (case r2 of Inl e \<Rightarrow> 9999 | Inr n \<Rightarrow> n)
                in (fs2, Inr (tests_ok, lint_count)))))"


section \<open>planner.py: candidates from the generative collaborator\<close>

text \<open>\<open>propose_candidates\<close>, from the text \<open>call_llm\<close> returned: the decoded value when
  \<open>json.loads\<close> succeeds, the empty list when it raises.\<close>

definition propose_candidates :: "string \<Rightarrow> exn + json" where
  "propose_candidates resp =
     (case json_loads resp of
        Inr candidates \<Rightarrow> Inr candidates
      | Inl e \<Rightarrow> Inr (JArr []))"



text \<open>What \<open>len\<close> and \<open>for\<close> make of a decoded value.\<close>

definition py_iter :: "json \<Rightarrow> exn + json list" where
  "py_iter v =
     (case v of
        JArr xs \<Rightarrow> Inr xs
      | JObj kvs \<Rightarrow> Inr (map (\<lambda>kv. JStr (fst kv)) kvs)
      | JStr s \<Rightarrow> Inr (map (\<lambda>c. JStr [c]) s)
      | _ \<Rightarrow> Inl TypeError)"


section \<open>Score and delta\<close>

subsection \<open>agent\_core.py\<close>

text \<open>Python's floats are modelled as reals: the two roundings of the division and the
  multiplication are not part of the model.\<close>

definition compute_score :: "bool \<Rightarrow> int \<Rightarrow> int" where
  "compute_score tests_ok lint_count = (if tests_ok then 100 else 0) - lint_count"

text \<open>Lines 88 to 92 of \<open>process_repo\<close>: \<open>delta\<close> starts at \<open>0.0\<close> and is overwritten by
  the first branch that applies.\<close>

definition candidate_delta :: "int \<Rightarrow> int \<Rightarrow> real" where
  "candidate_delta score_b score_a =
     (if score_b \<noteq> 0 then (real_of_int score_a - real_of_int score_b) / real_of_int \<bar>score_b\<bar> * 100
      else if score_a > 0 then 100
      else 0)"

subsection \<open>kai\_decision\_engine.py\<close>

definition tests_score :: "bool \<Rightarrow> real" where
  "tests_score ok = (if ok then 1 else 0)"

definition quality_score :: "bool \<Rightarrow> int \<Rightarrow> bool \<Rightarrow> int \<Rightarrow> real" where
  "quality_score tests_ok_before lint_before tests_ok_after lint_after =
     (let before = tests_score tests_ok_before * 100 - real_of_int lint_before;
          after = tests_score tests_ok_after * 100 - real_of_int lint_after
      in if before = 0 then (if after > 0 then 100 else 0)
         else (after - before) / \<bar>before\<bar> * 100)"

subsection \<open>The formulas as the specification words them\<close>

definition spec_score :: "bool \<Rightarrow> int \<Rightarrow> real" where
  "spec_score tests_passed lint_issue_count =
     (if tests_passed then 100 else 0) - real_of_int lint_issue_count"

definition spec_delta :: "real \<Rightarrow> real \<Rightarrow> real" where
  "spec_delta before after =
     (if before \<noteq> 0 then (after - before) / \<bar>before\<bar> * 100
      else if after > 0 then 100 else 0)"


section \<open>agent\_core.py: the decision loop\<close>

text \<open>
  What a run does that can be observed, in order: a log line, the answer of a
  kill-switch check, the start of a repository, the application of a candidate (with the
  working copy it was applied to and whether the write succeeded), and the outcome of a
  candidate with its delta.
\<close>

datatype event =
    Log string
  | KillCheck bool
  | ProcessRepo string
  | Apply json filesystem bool
  | Accept json real
  | PublishFailed json real exn
  | Reject json real
  | Decided bool real

text \<open>
  The surroundings of a run, which the code only observes: the working directory, the
  environment variables, the configured margin if any, whether the sentinel file
  exists at the n-th check, whether the second read of the configuration in \<open>main\<close>
  succeeds, the hosting service's answer for a repository name, the tree a clone
  produces (or its failure), the output of \<open>git diff\<close>, the two quality tools, the
  text the generative collaborator returns for a repository, the archiver, the
  publication of a candidate (commit, branch, push, pull request, memory record) and,
  for the decision engine, the formatter and the writing of the decision record.
\<close>

record env =
  cwd :: path
  environ :: "string \<Rightarrow> string option"
  margin_cfg :: "real option"
  kill_present :: "nat \<Rightarrow> bool"
  config_load :: "exn + unit"
  get_repo :: "string \<Rightarrow> exn + string"
  git_clone :: "string \<Rightarrow> nat \<Rightarrow> filesystem option"
  git_diff :: "filesystem \<Rightarrow> path \<Rightarrow> exn + string"
  quality_tools :: tools
  call_llm :: "string \<Rightarrow> string"
  make_archive :: "filesystem \<Rightarrow> path \<Rightarrow> exn + unit"
  publish :: "string \<Rightarrow> json \<Rightarrow> exn + nat"
  run_black :: "filesystem \<Rightarrow> path \<Rightarrow> filesystem \<times> (exn + unit)"
  dump_decision :: "exn + unit"

text \<open>What changes during a run: the files, and how many kill-switch checks and clones
  have been made.\<close>

record world =
  files :: filesystem
  checks :: nat
  clones :: nat

definition IMPROVEMENT_MARGIN :: "env \<Rightarrow> real" where
  "IMPROVEMENT_MARGIN env = (case margin_cfg env of None \<Rightarrow> 5.0 | Some m \<Rightarrow> m)"

definition check_kill :: "env \<Rightarrow> world \<Rightarrow> bool \<times> world \<times> event list" where
  "check_kill env w =
     (if kill_present env (checks w)
      then (True, w\<lparr>checks := Suc (checks w)\<rparr>,
            [KillCheck True, Log ''KILL switch present - aborting run.''])
      else (False, w\<lparr>checks := Suc (checks w)\<rparr>, [KillCheck False]))"

text \<open>\<open>read_allowlist\<close>, the same in \<open>agent_core.py\<close> and \<open>kai_decision_engine.py\<close>.\<close>

definition read_allowlist :: "filesystem \<Rightarrow> path \<Rightarrow> exn + string list" where
  "read_allowlist fs wd =
     (let p = wd @ [''repos.txt''] in
      if \<not> exists_path fs p then Inr []
      else
        (case read_text fs p of
           Inl e \<Rightarrow> Inl e
         | Inr txt \<Rightarrow>
             Inr (filter (\<lambda>s. \<not> (s = [] \<or> startswith s ''#'')) (map strip (splitlines txt)))))"

text \<open>\<open>snapshot\<close> of \<open>evaluator.py\<close>: an old archive of the same name is removed, then
  the archive is made.\<close>

definition snapshot :: "env \<Rightarrow> filesystem \<Rightarrow> ppath \<Rightarrow> string \<Rightarrow> filesystem \<times> (exn + unit)" where
  "snapshot env fs repo_dir tag =
     (let zipname = artifact (cwd env) repo_dir (''_'' @ tag @ ''.zip'') in
      if fs zipname = Some Dir then (fs, Inl IsADirectoryError)
      else
        (case make_archive env (fs(zipname := None)) (resolve (cwd env) repo_dir) of
           Inl e \<Rightarrow> (fs(zipname := None), Inl e)
         | Inr u \<Rightarrow> (fs(zipname \<mapsto> Blob), Inr ())))"

text \<open>A clone puts the remote tree at the working copy's place.\<close>

definition install :: "filesystem \<Rightarrow> path \<Rightarrow> filesystem \<Rightarrow> filesystem" where
  "install fs base tree =
     (\<lambda>p. if prefix base p then (if p = base then Some Dir else tree (drop (length base) p))
          else fs p)"

text \<open>Lines 113 to 121, the \<open>else\<close> branch: the diff is saved (a failure is passed
  over), the working copy is removed and cloned again; the result of this clone is not
  checked.\<close>

definition save_rejected_diff :: "env \<Rightarrow> filesystem \<Rightarrow> ppath \<Rightarrow> filesystem" where
  "save_rejected_diff env fs repo_dir =
     (case git_diff env fs (resolve (cwd env) repo_dir) of
        Inl e \<Rightarrow> fs
      | Inr d \<Rightarrow>
          (case write_text fs (artifact (cwd env) repo_dir ''_rejected.diff'') d of
             Inl e \<Rightarrow> fs
           | Inr fs1 \<Rightarrow> fs1))"

definition revert_by_reclone :: "env \<Rightarrow> string \<Rightarrow> ppath \<Rightarrow> world \<Rightarrow> world" where
  "revert_by_reclone env full repo_dir w =
     (let base = resolve (cwd env) repo_dir;
          fs1 = rmtree (save_rejected_diff env (files w) repo_dir) base
      in case git_clone env full (clones w) of
           None \<Rightarrow> w\<lparr>files := fs1, clones := Suc (clones w)\<rparr>
         | Some tree \<Rightarrow> w\<lparr>files := install fs1 base tree, clones := Suc (clones w)\<rparr>)"

text \<open>Lines 97 to 111, the body of the \<open>try\<close>: the pull request's body reads
  \<open>cand.get\<close>, which only a \<open>dict\<close> has.\<close>

definition publish_candidate :: "env \<Rightarrow> string \<Rightarrow> json \<Rightarrow> exn + nat" where
  "publish_candidate env full cand =
     (case cand of JObj kvs \<Rightarrow> publish env full cand | _ \<Rightarrow> Inl AttributeError)"

datatype verdict = VAccepted | VPublishFailed exn | VRejected | VRaised exn

text \<open>Lines 85 to 121: one candidate, after the kill-switch check.\<close>

definition try_candidate ::
    "env \<Rightarrow> string \<Rightarrow> ppath \<Rightarrow> int \<Rightarrow> json \<Rightarrow> world \<Rightarrow> world \<times> event list \<times> verdict" where
  "try_candidate env full repo_dir score_b cand w =
     (case apply_candidate (files w) (cwd env) repo_dir cand of
        (fs1, ok) \<Rightarrow>
          (let applied = Apply cand (subtree (files w) (resolve (cwd env) repo_dir)) ok in
           case compute_quality (quality_tools env) fs1 (cwd env) repo_dir of
             (fs2, Inl e) \<Rightarrow> (w\<lparr>files := fs2\<rparr>, [applied], VRaised e)
           | (fs2, Inr (tests_a, lint_a)) \<Rightarrow>
               (let score_a = compute_score tests_a lint_a;
                    delta = candidate_delta score_b score_a
                in if delta \<ge> IMPROVEMENT_MARGIN env then
                     (case publish_candidate env full cand of
                        Inr pr \<Rightarrow> (w\<lparr>files := fs2\<rparr>, [applied, Accept cand delta], VAccepted)
                      | Inl e \<Rightarrow>
                          (w\<lparr>files := fs2\<rparr>, [applied, PublishFailed cand delta e],
                           VPublishFailed e))
                   else (revert_by_reclone env full repo_dir (w\<lparr>files := fs2\<rparr>),
                         [applied, Reject cand delta], VRejected))))"

datatype loop_exit = Exhausted | Accepted | Killed | Raised exn

text \<open>Lines 82 to 121: the \<open>for\<close> loop over the candidates.\<close>

fun candidates_loop ::
    "env \<Rightarrow> string \<Rightarrow> ppath \<Rightarrow> int \<Rightarrow> json list \<Rightarrow> world \<Rightarrow> world \<times> event list \<times> loop_exit" where
  "candidates_loop env full repo_dir score_b [] w = (w, [], Exhausted)"
| "candidates_loop env full repo_dir score_b (cand # rest) w =
     (case check_kill env w of
        (killed, w1, evs1) \<Rightarrow>
          if killed then (w1, evs1, Killed)
          else
            (case try_candidate env full repo_dir score_b cand w1 of
               (w2, evs2, v) \<Rightarrow>
                 (case v of
                    VAccepted \<Rightarrow> (w2, evs1 @ evs2, Accepted)
                  | VRaised e \<Rightarrow> (w2, evs1 @ evs2, Raised e)
                  | _ \<Rightarrow>
                      (case candidates_loop env full repo_dir score_b rest w2 of
                         (w3, evs3, ex) \<Rightarrow> (w3, evs1 @ evs2 @ evs3, ex)))))"

text \<open>Lines 57 to 81: up to the list of candidates. The result is the working copy,
  the baseline score and the candidates, or the exception that ends the repository.\<close>

definition prepare_repo ::
    "env \<Rightarrow> string \<Rightarrow> world \<Rightarrow> world \<times> (exn + ppath \<times> int \<times> json list)" where
  "prepare_repo env full w =
     (case get_repo env full of
        Inl e \<Rightarrow> (w, Inl e)
      | Inr default_branch \<Rightarrow>
          (let work = cwd env @ [''_kai_work''];
               fs1 = (rmtree (files w) work)(work \<mapsto> Dir);
               w1 = w\<lparr>files := fs1, clones := Suc (clones w)\<rparr>
           in case git_clone env full (clones w) of
                None \<Rightarrow> (w1, Inl CalledProcessError)
              | Some tree \<Rightarrow>
                  (case after_first_slash full of
                     Inl e \<Rightarrow> (w1, Inl e)
                   | Inr name \<Rightarrow>
                       (let repo_dir = joinpath (PPath False [''_kai_work'']) (parse_path name);
                            fs2 = install fs1 (resolve (cwd env) repo_dir) tree
                        in case compute_quality (quality_tools env) fs2 (cwd env) repo_dir of
                             (fs3, Inl e) \<Rightarrow> (w1\<lparr>files := fs3\<rparr>, Inl e)
                           | (fs3, Inr (tests_b, lint_b)) \<Rightarrow>
                               (case snapshot env fs3 repo_dir ''before'' of
                                  (fs4, Inl e) \<Rightarrow> (w1\<lparr>files := fs4\<rparr>, Inl e)
                                | (fs4, Inr u) \<Rightarrow>
                                    (case propose_candidates (call_llm env full) of
                                       Inl e \<Rightarrow> (w1\<lparr>files := fs4\<rparr>, Inl e)
                                     | Inr candidates \<Rightarrow>
                                         (case py_iter candidates of
                                            Inl e \<Rightarrow> (w1\<lparr>files := fs4\<rparr>, Inl e)
                                          | Inr cands \<Rightarrow>
                                              (w1\<lparr>files := fs4\<rparr>,
                                               Inr (repo_dir, compute_score tests_b lint_b,
                                                    cands)))))))))"

text \<open>\<open>process_repo\<close>: every exception ends in the handler of line 126, which logs
  it. A kill-switch hit returns at once; otherwise the loop is followed by the second
  snapshot and the removal of the work directory.\<close>

definition process_repo :: "env \<Rightarrow> string \<Rightarrow> world \<Rightarrow> world \<times> event list" where
  "process_repo env full w =
     (case prepare_repo env full w of
        (w1, Inl e) \<Rightarrow>
          (w1, [ProcessRepo full,
                Log (if e = CalledProcessError then ''Clone failed'' else ''Error process_repo'')])
      | (w1, Inr (repo_dir, score_b, cands)) \<Rightarrow>
          (case candidates_loop env full repo_dir score_b cands w1 of
             (w2, evs, Killed) \<Rightarrow> (w2, ProcessRepo full # evs)
           | (w2, evs, Raised e) \<Rightarrow> (w2, ProcessRepo full # evs @ [Log ''Error process_repo''])
           | (w2, evs, ex) \<Rightarrow>
               (case snapshot env (files w2) repo_dir ''after'' of
                  (fs3, Inl e) \<Rightarrow>
                    (w2\<lparr>files := fs3\<rparr>, ProcessRepo full # evs @ [Log ''Error process_repo''])
                | (fs3, Inr u) \<Rightarrow>
                    (w2\<lparr>files := rmtree fs3 (cwd env @ [''_kai_work''])\<rparr>,
                     ProcessRepo full # evs @
                       (if ex = Accepted then [] else [Log ''No candidate accepted''])))))"

text \<open>Lines 142 to 144: the loop over the allowlist.\<close>

fun repos_loop :: "env \<Rightarrow> string list \<Rightarrow> world \<Rightarrow> world \<times> event list" where
  "repos_loop env [] w = (w, [])"
| "repos_loop env (full # rest) w =
     (case check_kill env w of
        (killed, w1, evs1) \<Rightarrow>
          if killed then (w1, evs1)
          else
            (case process_repo env full w1 of
               (w2, evs2) \<Rightarrow>
                 (case repos_loop env rest w2 of
                    (w3, evs3) \<Rightarrow> (w3, evs1 @ evs2 @ evs3))))"

text \<open>How a process ends: with an exit status, or by an exception nothing caught.\<close>

datatype ending = Exit nat | Uncaught exn

text \<open>\<open>a or b\<close> on values of \<open>os.environ.get\<close>, and \<open>not token\<close>.\<close>

definition py_or :: "string option \<Rightarrow> string option \<Rightarrow> string option" where
  "py_or a b = (case a of None \<Rightarrow> b | Some s \<Rightarrow> if s = [] then b else a)"

definition falsy :: "string option \<Rightarrow> bool" where
  "falsy t = (case t of None \<Rightarrow> True | Some s \<Rightarrow> s = [])"

definition main :: "env \<Rightarrow> world \<Rightarrow> ending \<times> world \<times> event list" where
  "main env w =
     (case check_kill env w of
        (killed, w1, evs1) \<Rightarrow>
          if killed then (Exit 0, w1, evs1)
          else
            (case config_load env of
               Inl e \<Rightarrow> (Uncaught e, w1, evs1)
             | Inr cfg \<Rightarrow>
                 (let token = py_or (environ env ''KAI_PAT'') (environ env ''GITHUB_TOKEN'') in
                  if falsy token then (Exit 0, w1, evs1 @ [Log ''Missing KAI_PAT in env.''])
                  else
                    (case read_allowlist (files w1) (cwd env) of
                       Inl e \<Rightarrow> (Uncaught e, w1, evs1)
                     | Inr allow \<Rightarrow>
                         if allow = [] then
                           (Exit 0, w1, evs1 @ [Log ''No repos in repos.txt - nothing to do.''])
                         else
                           (case repos_loop env allow w1 of
                              (w2, evs2) \<Rightarrow>
                                (Exit 0, w2, evs1 @ evs2 @ [Log ''Agent run finished.'']))))))"


section \<open>kai\_decision\_engine.py: one formatter pass per repository\<close>

definition de_IMPROVEMENT_MARGIN :: real where
  "de_IMPROVEMENT_MARGIN = 5.0"

text \<open>Lines 156 to 208 of \<open>process_repo\<close>, up to the exception that the handler of line
  209 logs.\<close>

definition de_process_body :: "env \<Rightarrow> string \<Rightarrow> world \<Rightarrow> world \<times> event list \<times> (exn + unit)" where
  "de_process_body env repo_full w =
     (case get_repo env repo_full of
        Inl e \<Rightarrow> (w, [], Inl e)
      | Inr default_branch \<Rightarrow>
          (let work = cwd env @ [''_kai_work''];
               fs1 = (rmtree (files w) work)(work \<mapsto> Dir);
               w1 = w\<lparr>files := fs1, clones := Suc (clones w)\<rparr>
           in case git_clone env repo_full (clones w) of
                None \<Rightarrow> (w1, [Log ''Clone failed''], Inr ())
              | Some tree \<Rightarrow>
                  (case after_first_slash repo_full of
                     Inl e \<Rightarrow> (w1, [], Inl e)
                   | Inr name \<Rightarrow>
                       (let repo_dir = joinpath (PPath True (cwd env @ [''_kai_work'']))
                                         (parse_path name);
                            fs2 = install fs1 (resolve (cwd env) repo_dir) tree
                        in case de_compute_quality (quality_tools env) fs2 (cwd env) repo_dir of
                             (fs3, Inl e) \<Rightarrow> (w1\<lparr>files := fs3\<rparr>, [], Inl e)
                           | (fs3, Inr (tests_b, lint_b)) \<Rightarrow>
                               (case run_black env fs3 (resolve (cwd env) repo_dir) of
                                  (fs4, formatted) \<Rightarrow>
                                    (case de_compute_quality (quality_tools env) fs4 (cwd env)
                                            repo_dir of
                                       (fs5, Inl e) \<Rightarrow> (w1\<lparr>files := fs5\<rparr>, [], Inl e)
                                     | (fs5, Inr (tests_a, lint_a)) \<Rightarrow>
                                         (let delta_percent =
                                                quality_score tests_b lint_b tests_a lint_a;
                                              w2 = w1\<lparr>files := rmtree fs5 work\<rparr>
                                          in if delta_percent \<ge> de_IMPROVEMENT_MARGIN then
                                               (case dump_decision env of
                                                  Inl e \<Rightarrow>
                                                    (w1\<lparr>files := fs5\<rparr>,
                                                     [Decided True delta_percent], Inl e)
                                                | Inr u \<Rightarrow>
                                                    (w2, [Decided True delta_percent], Inr ()))
                                             else
                                               (w1\<lparr>files :=
                                                    rmtree (save_rejected_diff env fs5 repo_dir)
                                                      work\<rparr>,
                                                [Decided False delta_percent], Inr ()))))))))"

definition de_process_repo :: "env \<Rightarrow> string \<Rightarrow> world \<Rightarrow> world \<times> event list" where
  "de_process_repo env repo_full w =
     (case de_process_body env repo_full w of
        (w1, evs, Inl e) \<Rightarrow> (w1, ProcessRepo repo_full # evs @ [Log ''Error processing''])
      | (w1, evs, Inr u) \<Rightarrow> (w1, ProcessRepo repo_full # evs))"

fun de_repos_loop :: "env \<Rightarrow> string list \<Rightarrow> world \<Rightarrow> world \<times> event list" where
  "de_repos_loop env [] w = (w, [])"
| "de_repos_loop env (repo_full # rest) w =
     (case de_process_repo env repo_full w of
        (w1, evs1) \<Rightarrow>
          (case de_repos_loop env rest w1 of
             (w2, evs2) \<Rightarrow> (w2, evs1 @ evs2)))"

text \<open>\<open>main\<close> of \<open>kai_decision_engine.py\<close>; \<open>sys.exit(1)\<close> ends the process with
  status 1.\<close>

definition de_main :: "env \<Rightarrow> world \<Rightarrow> ending \<times> world \<times> event list" where
  "de_main env w =
     (let token = py_or (py_or (environ env ''KAI_PAT'') (environ env ''GITHUB_TOKEN''))
                    (environ env ''GITHUB_PAT'')
      in if falsy token then
           (Exit 1, w, [Log ''ERROR: KAI_PAT/GITHUB_TOKEN not found in env.''])
         else
           (case read_allowlist (files w) (cwd env) of
              Inl e \<Rightarrow> (Uncaught e, w, [])
            | Inr allow \<Rightarrow>
                if allow = [] then (Exit 0, w, [Log ''No repos in repos.txt allowlist. Exiting.''])
                else
                  (case de_repos_loop env allow w of
                     (w1, evs) \<Rightarrow> (Exit 0, w1, evs @ [Log ''Decision run complete.'']))))"


section \<open>kai\_evolve.py and kai\_maintainer.py: the deterministic mutations\<close>

definition nl :: string where
  "nl = [CHR 0x0A]"

definition editorconfig_text :: string where
  "editorconfig_text =
     ''root = true'' @ nl @ nl @ ''[*]'' @ nl @ ''end_of_line = lf'' @ nl @
     ''insert_final_newline = true'' @ nl @ ''charset = utf-8'' @ nl @
     ''trim_trailing_whitespace = true'' @ nl"

definition badge :: string where
  "badge = ''[![Maintained by Kai](https://img.shields.io/badge/maintained%20by-Kai-blue)](#)''"

text \<open>A mutation returns the file system it leaves and the exception it raised, if
  any. \<open>repo_dir\<close> is the resolved working copy.\<close>

definition ensure_editorconfig :: "filesystem \<Rightarrow> path \<Rightarrow> filesystem \<times> exn option" where
  "ensure_editorconfig fs repo_dir =
     (let ec = repo_dir @ [''.editorconfig''] in
      if \<not> exists_path fs ec then
        (case write_text fs ec editorconfig_text of
           Inl e \<Rightarrow> (fs, Some e)
         | Inr fs1 \<Rightarrow> (fs1, None))
      else (fs, None))"

definition ensure_badge :: "filesystem \<Rightarrow> path \<Rightarrow> filesystem \<times> exn option" where
  "ensure_badge fs repo_dir =
     (let readme = repo_dir @ [''README.md''] in
      if exists_path fs readme then
        (case read_text fs readme of
           Inl e \<Rightarrow> (fs, Some e)
         | Inr txt \<Rightarrow>
             if \<not> contains txt ''Maintained by Kai'' then
               (case write_text fs readme (badge @ nl @ nl @ txt) of
                  Inl e \<Rightarrow> (fs, Some e)
                | Inr fs1 \<Rightarrow> (fs1, None))
             else (fs, None))
      else
        (case write_text fs readme (''# Repo'' @ nl @ nl @ badge @ nl) of
           Inl e \<Rightarrow> (fs, Some e)
         | Inr fs1 \<Rightarrow> (fs1, None)))"

text \<open>\<open>apply_safe_mutations\<close> of \<open>kai_maintainer.py\<close>: the same two steps in one
  function; an exception of the first ends it.\<close>

definition apply_safe_mutations :: "filesystem \<Rightarrow> path \<Rightarrow> filesystem \<times> exn option" where
  "apply_safe_mutations fs repo_dir =
     (let ec = repo_dir @ [''.editorconfig''] in
      case (if \<not> exists_path fs ec then
              (case write_text fs ec editorconfig_text of
                 Inl e \<Rightarrow> (fs, Some e)
               | Inr fs1 \<Rightarrow> (fs1, None))
            else (fs, None)) of
        (fs1, Some e) \<Rightarrow> (fs1, Some e)
      | (fs1, None) \<Rightarrow>
          (let readme = repo_dir @ [''README.md''] in
           if exists_path fs1 readme then
             (case read_text fs1 readme of
                Inl e \<Rightarrow> (fs1, Some e)
              | Inr txt \<Rightarrow>
                  if \<not> contains txt ''Maintained by Kai'' then
                    (case write_text fs1 readme (badge @ nl @ nl @ txt) of
                       Inl e \<Rightarrow> (fs1, Some e)
                     | Inr fs2 \<Rightarrow> (fs2, None))
                  else (fs1, None))
           else
             (case write_text fs1 readme (''# Repo'' @ nl @ nl @ badge @ nl) of
                Inl e \<Rightarrow> (fs1, Some e)
              | Inr fs2 \<Rightarrow> (fs2, None))))"


section \<open>Reading a run's events\<close>

fun repos_processed :: "event list \<Rightarrow> string list" where
  "repos_processed [] = []"
| "repos_processed (ProcessRepo full # es) = full # repos_processed es"
| "repos_processed (e # es) = repos_processed es"

fun log_lines :: "event list \<Rightarrow> string list" where
  "log_lines [] = []"
| "log_lines (Log msg # es) = msg # log_lines es"
| "log_lines (e # es) = log_lines es"

text \<open>The candidates applied, and the working copies they were applied to.\<close>

fun applications :: "event list \<Rightarrow> json list" where
  "applications [] = []"
| "applications (Apply c st ok # es) = c # applications es"
| "applications (e # es) = applications es"

fun applied_to :: "event list \<Rightarrow> filesystem list" where
  "applied_to [] = []"
| "applied_to (Apply c st ok # es) = st # applied_to es"
| "applied_to (e # es) = applied_to es"

text \<open>The accepted candidates with their deltas, and what follows the first
  acceptance.\<close>

fun accepted :: "event list \<Rightarrow> (json \<times> real) list" where
  "accepted [] = []"
| "accepted (Accept c d # es) = (c, d) # accepted es"
| "accepted (e # es) = accepted es"

fun after_accept :: "event list \<Rightarrow> event list" where
  "after_accept [] = []"
| "after_accept (Accept c d # es) = es"
| "after_accept (e # es) = after_accept es"

text \<open>The decisions of the decision engine: accepted or not, with the delta.\<close>

fun decisions :: "event list \<Rightarrow> (bool \<times> real) list" where
  "decisions [] = []"
| "decisions (Decided a d # es) = (a, d) # decisions es"
| "decisions (e # es) = decisions es"

text \<open>
  \<open>guarded ok es\<close>: every application of a candidate and every start of a repository
  in \<open>es\<close> comes directly after a kill-switch check that found no sentinel; \<open>ok\<close> says
  whether such a check directly precedes \<open>es\<close>.
\<close>

fun guarded :: "bool \<Rightarrow> event list \<Rightarrow> bool" where
  "guarded ok [] = True"
| "guarded ok (KillCheck b # es) = guarded (\<not> b) es"
| "guarded ok (Apply c st k # es) = (ok \<and> guarded False es)"
| "guarded ok (ProcessRepo full # es) = (ok \<and> guarded False es)"
| "guarded ok (e # es) = guarded False es"

text \<open>Whether a check that found no sentinel directly precedes what follows \<open>es\<close>.\<close>

fun clear_after :: "bool \<Rightarrow> event list \<Rightarrow> bool" where
  "clear_after ok [] = ok"
| "clear_after ok (KillCheck b # es) = clear_after (\<not> b) es"
| "clear_after ok (e # es) = clear_after False es"

text \<open>\<open>quiet es\<close>: nothing is applied and no repository is started in \<open>es\<close>.
  \<open>halted es\<close>: that holds for everything after the first check that found the
  sentinel.\<close>

definition quiet :: "event list \<Rightarrow> bool" where
  "quiet es = (applications es = [] \<and> repos_processed es = [])"

fun halted :: "event list \<Rightarrow> bool" where
  "halted [] = True"
| "halted (KillCheck b # es) = (if b then quiet es else halted es)"
| "halted (e # es) = halted es"

text \<open>Nothing removes the sentinel file: once it exists it stays.\<close>

definition persistent :: "env \<Rightarrow> bool" where
  "persistent env = (\<forall>n. kill_present env n \<longrightarrow> kill_present env (Suc n))"

text \<open>A relative path without \<open>..\<close>.\<close>

definition stays_inside :: "string \<Rightarrow> bool" where
  "stays_inside r = (case parse_path r of PPath a ps \<Rightarrow> \<not> a \<and> ''..'' \<notin> set ps)"

text \<open>A candidate whose \<open>file\<close>, if it is a string, is such a path.\<close>

definition confined_candidate :: "json \<Rightarrow> bool" where
  "confined_candidate cand =
     (case subscript cand ''file'' of Inr (JStr r) \<Rightarrow> stays_inside r | _ \<Rightarrow> True)"


section \<open>A sample run\<close>

text \<open>
  A repository whose tests fail until a file \<open>fixed.py\<close> exists, with a clean lint
  report; a collaborator that proposes \<open>fixed.py\<close> and then \<open>other.py\<close>; a hosting
  service that refuses the pull request for the first.
\<close>

definition sample_tree :: filesystem where
  "sample_tree = [[''tests''] \<mapsto> Dir, [''README.md''] \<mapsto> File ''# sample'']"

definition sample_tools :: tools where
  "sample_tools =
     \<lparr>run_pytest = (\<lambda>fs base. Inr \<lparr>returncode = (if fs (base @ [''fixed.py'']) = None then 1 else 0),
                                      stdout = [], stderr = []\<rparr>),
      run_flake8 = (\<lambda>fs base. Inr \<lparr>returncode = 0, stdout = [], stderr = []\<rparr>)\<rparr>"


definition sample_response :: string where
  \<open>sample_response =
     ''[{"file": "fixed.py", "new_content": "x = 1", "reason": "fix"}, '' @
     ''{"file": "other.py", "new_content": "y = 2", "reason": "more"}]''\<close>



definition first_candidate :: json where
  "first_candidate =
     JObj [(''file'', JStr ''fixed.py''), (''new_content'', JStr ''x = 1''), (''reason'', JStr ''fix'')]"

definition second_candidate :: json where
  "second_candidate =
     JObj [(''file'', JStr ''other.py''), (''new_content'', JStr ''y = 2''), (''reason'', JStr ''more'')]"

definition escaping_candidate :: json where
  "escaping_candidate =
     JObj [(''file'', JStr ''../../escaped.txt''), (''new_content'', JStr ''x''), (''reason'', JStr ''r'')]"

definition absolute_candidate :: json where
  "absolute_candidate =
     JObj [(''file'', JStr ''/etc/escaped.txt''), (''new_content'', JStr ''x''), (''reason'', JStr ''r'')]"

definition sample_files :: filesystem where
  "sample_files =
     [[''home''] \<mapsto> Dir, [''home'', ''artifacts''] \<mapsto> Dir, [''etc''] \<mapsto> Dir,
      [''home'', ''repos.txt''] \<mapsto> File ''owner/repo'']"

definition cloned_files :: filesystem where
  "cloned_files =
     install (sample_files([''home'', ''_kai_work''] \<mapsto> Dir)) [''home'', ''_kai_work'', ''repo'']
       sample_tree"

definition sample_env :: env where
  "sample_env =
     \<lparr>cwd = [''home''],
      environ = [''KAI_PAT'' \<mapsto> ''secret''],
      margin_cfg = None,
      kill_present = (\<lambda>n. False),
      config_load = Inr (),
      get_repo = (\<lambda>full. Inr ''main''),
      git_clone = (\<lambda>full n. Some sample_tree),
      git_diff = (\<lambda>fs base. Inr []),
      quality_tools = sample_tools,
      call_llm = (\<lambda>full. sample_response),
      make_archive = (\<lambda>fs base. Inr ()),
      publish = (\<lambda>full cand. if cand = first_candidate then Inl GithubException else Inr 7),
      run_black = (\<lambda>fs base. (fs, Inr ())),
      dump_decision = Inr ()\<rparr>"

definition sample_world :: world where
  "sample_world = \<lparr>files = sample_files, checks = 0, clones = 0\<rparr>"


definition no_list_world :: world where
  "no_list_world = sample_world\<lparr>files := sample_files([''home'', ''repos.txt''] := None)\<rparr>"

definition killed_env :: env where
  "killed_env = sample_env\<lparr>kill_present := (\<lambda>n. 2 \<le> n)\<rparr>"


section \<open>Results about score and delta\<close>

lemma compute_score_spec: "real_of_int (compute_score t l) = spec_score t l"
  by (simp add: compute_score_def spec_score_def)

text \<open>The scenarios A to D of the specification: the scores and which side of the
  default margin the delta falls on.\<close>

lemma spec_scenarios:
  "compute_score True 10 = 90 \<and> compute_score True 4 = 96 \<and> candidate_delta 90 96 \<ge> 5"
  "compute_score True 9 = 91 \<and> candidate_delta 90 91 < 5"
  "compute_score False 0 = 0 \<and> compute_score True 0 = 100 \<and> candidate_delta 0 100 = 100"
  "compute_score False 5 = - 5 \<and> candidate_delta (- 5) (- 5) = 0"
  by (simp_all add: compute_score_def candidate_delta_def)

text \<open>
  Claim C2. For every before and after measurement, the delta computed by the decision
  loop of \<open>agent_core.py\<close> and the one computed by \<open>quality_score\<close> of
  \<open>kai_decision_engine.py\<close> both equal the specification's delta formula applied to the
  specification's scores: the percentage change relative to the absolute baseline when
  the baseline is nonzero, 100 when the baseline is zero and the new score positive,
  and 0 otherwise.
\<close>

theorem delta_matches_spec:
  "candidate_delta (compute_score tests_b lint_b) (compute_score tests_a lint_a)
     = spec_delta (spec_score tests_b lint_b) (spec_score tests_a lint_a)
   \<and> quality_score tests_b lint_b tests_a lint_a
     = spec_delta (spec_score tests_b lint_b) (spec_score tests_a lint_a)"
proof
  have zero_iff: "compute_score tests_b lint_b \<noteq> 0 \<longleftrightarrow> spec_score tests_b lint_b \<noteq> 0"
    by (simp add: compute_score_def spec_score_def)
  have pos_iff: "compute_score tests_a lint_a > 0 \<longleftrightarrow> spec_score tests_a lint_a > 0"
    by (simp add: compute_score_def spec_score_def)
  have abs_eq: "real_of_int \<bar>compute_score tests_b lint_b\<bar> = \<bar>spec_score tests_b lint_b\<bar>"
    by (simp add: compute_score_def spec_score_def)
  show "candidate_delta (compute_score tests_b lint_b) (compute_score tests_a lint_a)
     = spec_delta (spec_score tests_b lint_b) (spec_score tests_a lint_a)"
    unfolding candidate_delta_def spec_delta_def
    using zero_iff pos_iff abs_eq compute_score_spec by simp
next
  show "quality_score tests_b lint_b tests_a lint_a
     = spec_delta (spec_score tests_b lint_b) (spec_score tests_a lint_a)"
    by (simp add: quality_score_def spec_delta_def spec_score_def tests_score_def Let_def)
qed


section \<open>Results about the deterministic mutations\<close>



lemma badge_marked: "contains badge ''Maintained by Kai''"
  by (simp add: badge_def)

lemma contains_nil: "contains b []"
  by (cases b) auto

lemma contains_append: "contains a p \<Longrightarrow> contains (a @ b) p"
proof (induction a)
  case Nil
  then show ?case by (simp add: contains_nil)
next
  case (Cons c cs)
  then show ?case using prefix_prefix [of p "c # cs" b] by auto
qed

lemma contains_prepend: "contains b p \<Longrightarrow> contains (a @ b) p"
  by (induction a) auto

lemma universal_newlines_id: "CHR 0x0D \<notin> set s \<Longrightarrow> universal_newlines s = s"
  by (induction s rule: universal_newlines.induct) (auto split: list.splits)

lemma badge_no_cr: "CHR 0x0D \<notin> set badge"
  by (simp add: badge_def)

lemma marked_fresh:
  "contains (universal_newlines (''# Repo'' @ nl @ nl @ badge @ nl)) ''Maintained by Kai''"
proof -
  have "CHR 0x0D \<notin> set (''# Repo'' @ nl @ nl @ badge @ nl)"
    using badge_no_cr by (simp add: nl_def)
  then have "universal_newlines (''# Repo'' @ nl @ nl @ badge @ nl) = ''# Repo'' @ nl @ nl @ badge @ nl"
    by (rule universal_newlines_id)
  moreover have "contains ((''# Repo'' @ nl @ nl) @ (badge @ nl)) ''Maintained by Kai''"
    by (rule contains_prepend) (rule contains_append [OF badge_marked])
  ultimately show ?thesis by simp
qed


lemma universal_newlines_no_cr: "CHR 0x0D \<notin> set (universal_newlines s)"
  by (induction s rule: universal_newlines.induct) (auto split: list.splits)

lemma marked_after_badge:
  "contains (universal_newlines (badge @ nl @ nl @ universal_newlines s)) ''Maintained by Kai''"
proof -
  have "CHR 0x0D \<notin> set (badge @ nl @ nl @ universal_newlines s)"
    using badge_no_cr universal_newlines_no_cr by (simp add: nl_def)
  then have "universal_newlines (badge @ nl @ nl @ universal_newlines s)
      = badge @ nl @ nl @ universal_newlines s"
    by (rule universal_newlines_id)
  then show ?thesis using contains_append [OF badge_marked] by simp
qed

lemma write_text_Inr:
  assumes "write_text fs p s = Inr fs1"
  shows "fs1 = fs(p \<mapsto> File s)" and "exists_path fs1 p"
    and "read_text fs1 p = Inr (universal_newlines s)"
  using assms by (auto simp: write_text_def read_text_def exists_path_def split: if_splits)

lemma write_text_other:
  assumes "write_text fs p s = Inr fs1" and "q \<noteq> p"
  shows "fs1 q = fs q"
  using assms by (auto simp: write_text_def split: if_splits)

lemma badge_twice:
  "ensure_badge (fst (ensure_badge fs d)) d = ensure_badge fs d"
proof -
  let ?p = "d @ [''README.md'']"
  show ?thesis
  proof (cases "exists_path fs ?p")
    case ex: True
    show ?thesis
    proof (cases "read_text fs ?p")
      case (Inl e)
      with ex show ?thesis by (simp add: ensure_badge_def)
    next
      case rd: (Inr body)
      show ?thesis
      proof (cases "contains body ''Maintained by Kai''")
        case True
        with ex rd show ?thesis by (simp add: ensure_badge_def)
      next
        case nomark: False
        show ?thesis
        proof (cases "write_text fs ?p (badge @ nl @ nl @ body)")
          case (Inl e)
          with ex rd nomark show ?thesis by (simp add: ensure_badge_def)
        next
          case wr: (Inr fs1)
          have first: "ensure_badge fs d = (fs1, None)"
            using ex rd nomark wr by (simp add: ensure_badge_def)
          obtain s where body: "body = universal_newlines s"
            using rd by (auto simp: read_text_def split: if_splits option.splits node.splits)
          have "contains (universal_newlines (badge @ nl @ nl @ body)) ''Maintained by Kai''"
            unfolding body by (rule marked_after_badge)
          then have "ensure_badge fs1 d = (fs1, None)"
            using write_text_Inr(2,3) [OF wr] by (simp add: ensure_badge_def)
          with first show ?thesis by simp
        qed
      qed
    qed
  next
    case nex: False
    show ?thesis
    proof (cases "write_text fs ?p (''# Repo'' @ nl @ nl @ badge @ nl)")
      case (Inl e)
      with nex show ?thesis by (simp add: ensure_badge_def)
    next
      case wr: (Inr fs1)
      have first: "ensure_badge fs d = (fs1, None)"
        using nex wr by (simp add: ensure_badge_def)
      have "ensure_badge fs1 d = (fs1, None)"
        using write_text_Inr(2,3) [OF wr] marked_fresh by (simp add: ensure_badge_def)
      with first show ?thesis by simp
    qed
  qed
qed


lemma editorconfig_twice:
  "ensure_editorconfig (fst (ensure_editorconfig fs d)) d = ensure_editorconfig fs d"
  by (auto simp: ensure_editorconfig_def write_text_def exists_path_def is_dir_def Let_def
           split: if_splits)

lemma apply_safe_mutations_steps:
  "apply_safe_mutations fs d =
     (case ensure_editorconfig fs d of
        (fs1, Some e) \<Rightarrow> (fs1, Some e)
      | (fs1, None) \<Rightarrow> ensure_badge fs1 d)"
  by (simp add: apply_safe_mutations_def ensure_editorconfig_def ensure_badge_def Let_def
           split: sum.splits)

lemma editorconfig_present:
  "ensure_editorconfig fs d = (fs1, None) \<Longrightarrow> exists_path fs1 (d @ [''.editorconfig''])"
  by (auto simp: ensure_editorconfig_def Let_def write_text_Inr(2) split: if_splits sum.splits)

lemma editorconfig_raises: "ensure_editorconfig fs d = (fs1, Some e) \<Longrightarrow> fs1 = fs"
  by (auto simp: ensure_editorconfig_def Let_def split: if_splits sum.splits)

lemma badge_keeps_editorconfig:
  assumes "exists_path fs1 (d @ [''.editorconfig''])"
  shows "exists_path (fst (ensure_badge fs1 d)) (d @ [''.editorconfig''])"
proof -
  have "fst (ensure_badge fs1 d) (d @ [''.editorconfig'']) = fs1 (d @ [''.editorconfig''])"
    by (auto simp: ensure_badge_def Let_def write_text_other split: if_splits sum.splits)
  with assms show ?thesis by (simp add: exists_path_def)
qed

lemma editorconfig_skipped:
  "exists_path fs (d @ [''.editorconfig'']) \<Longrightarrow> ensure_editorconfig fs d = (fs, None)"
  by (simp add: ensure_editorconfig_def)

lemma safe_mutations_twice:
  "apply_safe_mutations (fst (apply_safe_mutations fs d)) d = apply_safe_mutations fs d"
proof (cases "ensure_editorconfig fs d")
  case (Pair fs1 r)
  show ?thesis
  proof (cases r)
    case (Some e)
    with Pair have "fs1 = fs" by (simp add: editorconfig_raises)
    with Pair Some show ?thesis by (simp add: apply_safe_mutations_steps)
  next
    case None
    with Pair have first: "apply_safe_mutations fs d = ensure_badge fs1 d"
      by (simp add: apply_safe_mutations_steps)
    have "exists_path (fst (ensure_badge fs1 d)) (d @ [''.editorconfig''])"
      using Pair None by (intro badge_keeps_editorconfig editorconfig_present) simp
    then have "ensure_editorconfig (fst (ensure_badge fs1 d)) d = (fst (ensure_badge fs1 d), None)"
      by (rule editorconfig_skipped)
    then have "apply_safe_mutations (fst (ensure_badge fs1 d)) d
        = ensure_badge (fst (ensure_badge fs1 d)) d"
      by (simp add: apply_safe_mutations_steps)
    with first show ?thesis by (simp add: badge_twice)
  qed
qed

text \<open>
  Claim C9. Each deterministic safe mutation is idempotent: for every file system and
  working copy, running \<open>ensure_editorconfig\<close>, \<open>ensure_badge\<close> of \<open>kai_evolve.py\<close> or
  \<open>apply_safe_mutations\<close> of \<open>kai_maintainer.py\<close> a second time leaves the state the
  first run produced. (The lemmas above show more: the second run also ends the same
  way, with the same exception if the first one raised.)
\<close>

theorem safe_mutations_idempotent:
  "fst (ensure_editorconfig (fst (ensure_editorconfig fs d)) d) = fst (ensure_editorconfig fs d)
   \<and> fst (ensure_badge (fst (ensure_badge fs d)) d) = fst (ensure_badge fs d)
   \<and> fst (apply_safe_mutations (fst (apply_safe_mutations fs d)) d)
       = fst (apply_safe_mutations fs d)"
  by (simp add: editorconfig_twice badge_twice safe_mutations_twice)


section \<open>Results about the quality assessor\<close>








section \<open>Results about the allowlist and the early returns\<close>


lemma read_allowlist_absent:
  "fs (wd @ [''repos.txt'']) = None \<Longrightarrow> read_allowlist fs wd = Inr []"
  by (simp add: read_allowlist_def exists_path_def)

lemma read_allowlist_empty_file:
  "read_allowlist (fs(wd @ [''repos.txt''] \<mapsto> File [])) wd = Inr []"
  by (simp add: read_allowlist_def exists_path_def read_text_def splitlines_def)

lemma main_nothing_to_do:
  assumes "read_allowlist (files w) (cwd env) = Inr []"
    and "\<not> kill_present env (checks w)"
    and "config_load env = Inr ()"
    and "\<not> falsy (py_or (environ env ''KAI_PAT'') (environ env ''GITHUB_TOKEN''))"
  shows "main env w = (Exit 0, w\<lparr>checks := Suc (checks w)\<rparr>,
           [KillCheck False, Log ''No repos in repos.txt - nothing to do.''])"
  using assms by (simp add: main_def check_kill_def Let_def)

lemma de_main_nothing_to_do:
  assumes "read_allowlist (files w) (cwd env) = Inr []"
    and "\<not> falsy (py_or (py_or (environ env ''KAI_PAT'') (environ env ''GITHUB_TOKEN''))
                 (environ env ''GITHUB_PAT''))"
  shows "de_main env w = (Exit 0, w, [Log ''No repos in repos.txt allowlist. Exiting.''])"
  using assms by (simp add: de_main_def Let_def)

lemma falsy_py_or: "falsy (py_or a b) \<longleftrightarrow> falsy a \<and> falsy b"
  by (auto simp: falsy_def py_or_def split: option.splits)

lemma main_same_as_empty_list:
  assumes "read_allowlist (files w) (cwd env) = Inr []"
    and "read_allowlist (files w') (cwd env) = Inr []"
    and "checks w' = checks w"
  shows "fst (main env w) = fst (main env w')
       \<and> snd (snd (main env w)) = snd (snd (main env w'))"
  using assms by (simp add: main_def check_kill_def Let_def split: sum.splits)

text \<open>
  Claim C10. When \<open>repos.txt\<close> does not exist, \<open>read_allowlist\<close> returns the empty list
  and raises nothing; \<open>main\<close> then ends and logs exactly as it does for a file that
  exists and is empty, and (with no sentinel, a readable configuration and a
  credential) that is the early return \<open>nothing to do\<close> with exit status 0, in
  \<open>agent_core.py\<close> and in \<open>kai_decision_engine.py\<close> alike.
\<close>

theorem missing_allowlist_is_empty:
  assumes "files w (cwd env @ [''repos.txt'']) = None"
  shows "read_allowlist (files w) (cwd env) = Inr []
       \<and> fst (main env w)
           = fst (main env (w\<lparr>files := (files w)(cwd env @ [''repos.txt''] \<mapsto> File [])\<rparr>))
       \<and> snd (snd (main env w))
           = snd (snd (main env (w\<lparr>files := (files w)(cwd env @ [''repos.txt''] \<mapsto> File [])\<rparr>)))
       \<and> (\<not> kill_present env (checks w) \<and> config_load env = Inr ()
            \<and> \<not> falsy (py_or (environ env ''KAI_PAT'') (environ env ''GITHUB_TOKEN''))
          \<longrightarrow> main env w = (Exit 0, w\<lparr>checks := Suc (checks w)\<rparr>,
                 [KillCheck False, Log ''No repos in repos.txt - nothing to do.''])
              \<and> de_main env w = (Exit 0, w, [Log ''No repos in repos.txt allowlist. Exiting.'']))"
proof -
  have absent: "read_allowlist (files w) (cwd env) = Inr []"
    using assms by (rule read_allowlist_absent)
  have same: "fst (main env w)
           = fst (main env (w\<lparr>files := (files w)(cwd env @ [''repos.txt''] \<mapsto> File [])\<rparr>))
       \<and> snd (snd (main env w))
           = snd (snd (main env (w\<lparr>files := (files w)(cwd env @ [''repos.txt''] \<mapsto> File [])\<rparr>)))"
    by (rule main_same_as_empty_list) (simp_all add: absent read_allowlist_empty_file)
  have early: "main env w = (Exit 0, w\<lparr>checks := Suc (checks w)\<rparr>,
                 [KillCheck False, Log ''No repos in repos.txt - nothing to do.''])
              \<and> de_main env w = (Exit 0, w, [Log ''No repos in repos.txt allowlist. Exiting.''])"
    if "\<not> kill_present env (checks w)" and "config_load env = Inr ()"
      and "\<not> falsy (py_or (environ env ''KAI_PAT'') (environ env ''GITHUB_TOKEN''))"
    using that absent main_nothing_to_do [of w env] de_main_nothing_to_do [of w env]
    by (auto simp: falsy_py_or)
  from absent same early show ?thesis by blast
qed

theorem missing_allowlist_is_empty_witness:
  "files no_list_world (cwd sample_env @ [''repos.txt'']) = None
   \<and> \<not> kill_present sample_env (checks no_list_world)
   \<and> config_load sample_env = Inr ()
   \<and> \<not> falsy (py_or (environ sample_env ''KAI_PAT'') (environ sample_env ''GITHUB_TOKEN''))
   \<and> read_allowlist (files no_list_world) (cwd sample_env) = Inr []
   \<and> fst (main sample_env no_list_world) = Exit 0
   \<and> log_lines (snd (snd (main sample_env no_list_world)))
       = [''No repos in repos.txt - nothing to do.'']
   \<and> fst (de_main sample_env no_list_world) = Exit 0"
proof -
  have a: "files no_list_world (cwd sample_env @ [''repos.txt'']) = None"
    by (simp add: no_list_world_def sample_env_def sample_world_def)
  have b: "\<not> kill_present sample_env (checks no_list_world)"
    by (simp add: sample_env_def)
  have c: "config_load sample_env = Inr ()"
    by (simp add: sample_env_def)
  have d: "\<not> falsy (py_or (environ sample_env ''KAI_PAT'') (environ sample_env ''GITHUB_TOKEN''))"
    by (simp add: sample_env_def falsy_def py_or_def)
  show ?thesis
    using missing_allowlist_is_empty [OF a] a b c d by simp
qed










section \<open>Results about the decision loop\<close>


lemma accepted_append: "accepted (a @ b) = accepted a @ accepted b"
  by (induction a rule: accepted.induct) simp_all

lemma applications_append: "applications (a @ b) = applications a @ applications b"
  by (induction a rule: applications.induct) simp_all

lemma after_accept_append:
  "after_accept (a @ b) = (if accepted a = [] then after_accept b else after_accept a @ b)"
  by (induction a rule: accepted.induct) simp_all

lemma revert_keeps_checks: "checks (revert_by_reclone env full rd w) = checks w"
  by (simp add: revert_by_reclone_def Let_def split: option.splits)

lemma try_candidate_shape:
  assumes "try_candidate env full rd sb cand w = (w2, evs, v)"
  shows "checks w2 = checks w"
    and "v = VAccepted \<Longrightarrow>
           \<exists>st ok d. evs = [Apply cand st ok, Accept cand d] \<and> IMPROVEMENT_MARGIN env \<le> d"
    and "v \<noteq> VAccepted \<Longrightarrow> accepted evs = []"
    and "\<exists>st ok rest. evs = Apply cand st ok # rest \<and> applications rest = []
           \<and> repos_processed rest = [] \<and> guarded False rest"
  using assms
  by (auto simp: try_candidate_def Let_def revert_keeps_checks
           split: prod.splits sum.splits if_splits)

lemma check_kill_cases:
  "check_kill env w =
     (kill_present env (checks w), w\<lparr>checks := Suc (checks w)\<rparr>,
      if kill_present env (checks w)
      then [KillCheck True, Log ''KILL switch present - aborting run.'']
      else [KillCheck False])"
  by (simp add: check_kill_def)

lemma candidates_loop_accepts:
  "candidates_loop env full rd sb cs w = (w', evs, ex) \<Longrightarrow>
     length (accepted evs) \<le> 1
     \<and> list_all (\<lambda>(c, d). IMPROVEMENT_MARGIN env \<le> d) (accepted evs)
     \<and> (accepted evs \<noteq> [] \<longrightarrow> after_accept evs = [])
     \<and> (ex = Accepted \<longleftrightarrow> accepted evs \<noteq> [])"
proof (induction cs arbitrary: w w' evs ex)
  case Nil
  then show ?case by auto
next
  case (Cons cand rest)
  show ?case
  proof (cases "kill_present env (checks w)")
    case True
    with Cons.prems show ?thesis by (auto simp: check_kill_cases)
  next
    case False
    obtain w2 evs2 v where tc:
      "try_candidate env full rd sb cand (w\<lparr>checks := Suc (checks w)\<rparr>) = (w2, evs2, v)"
      by (cases "try_candidate env full rd sb cand (w\<lparr>checks := Suc (checks w)\<rparr>)") auto
    note shape = try_candidate_shape [OF tc]
    show ?thesis
    proof (cases "v = VAccepted")
      case True
      with Cons.prems False tc shape(2) show ?thesis
        by (auto simp: check_kill_cases)
    next
      case notacc: False
      show ?thesis
      proof (cases "\<exists>e. v = VRaised e")
        case True
        with Cons.prems False tc shape(3) notacc show ?thesis
          by (auto simp: check_kill_cases accepted_append)
      next
        case False': False
        obtain w3 evs3 ex3 where rec:
          "candidates_loop env full rd sb rest w2 = (w3, evs3, ex3)"
          by (cases "candidates_loop env full rd sb rest w2") auto
        have evs: "evs = [KillCheck False] @ evs2 @ evs3" and ex: "ex = ex3"
          using Cons.prems False tc rec notacc False'
          by (cases v; auto simp: check_kill_cases)+
        have "accepted evs = accepted evs3" and "after_accept evs = after_accept evs3"
          using shape(3) notacc by (simp_all add: evs accepted_append after_accept_append)
        with Cons.IH [OF rec] ex show ?thesis by simp
      qed
    qed
  qed
qed


lemma process_repo_cases:
  obtains (failed) msg where "snd (process_repo env full w) = [ProcessRepo full, Log msg]"
  | (looped) w1 rd sb cs w2 evs ex tail where
      "candidates_loop env full rd sb cs w1 = (w2, evs, ex)"
      "snd (process_repo env full w) = ProcessRepo full # evs @ tail"
      "checks (fst (process_repo env full w)) = checks w2"
      "tail = [] \<or> (\<exists>msg. tail = [Log msg])"
proof (cases "prepare_repo env full w")
  case (Pair w1 r)
  show ?thesis
  proof (cases r)
    case (Inl e)
    with Pair have "snd (process_repo env full w)
        = [ProcessRepo full,
           Log (if e = CalledProcessError then ''Clone failed'' else ''Error process_repo'')]"
      by (simp add: process_repo_def)
    then show ?thesis by (rule failed)
  next
    case (Inr x)
    then obtain rd sb cs where x: "r = Inr (rd, sb, cs)" by (cases x) auto
    obtain w2 evs ex where lp: "candidates_loop env full rd sb cs w1 = (w2, evs, ex)"
      by (cases "candidates_loop env full rd sb cs w1") auto
    have "\<exists>tail. snd (process_repo env full w) = ProcessRepo full # evs @ tail
         \<and> checks (fst (process_repo env full w)) = checks w2
         \<and> (tail = [] \<or> (\<exists>msg. tail = [Log msg]))"
      using Pair x lp
      by (cases ex; cases "snapshot env (files w2) rd ''after''")
         (auto simp: process_repo_def split: sum.splits)
    then obtain tail where
      "snd (process_repo env full w) = ProcessRepo full # evs @ tail"
      "checks (fst (process_repo env full w)) = checks w2"
      "tail = [] \<or> (\<exists>msg. tail = [Log msg])"
      by blast
    with lp show ?thesis by (rule looped)
  qed
qed

lemma process_repo_accepts:
  "length (accepted (snd (process_repo env full w))) \<le> 1
   \<and> list_all (\<lambda>(c, d). IMPROVEMENT_MARGIN env \<le> d) (accepted (snd (process_repo env full w)))
   \<and> applications (after_accept (snd (process_repo env full w))) = []"
proof (cases rule: process_repo_cases [of env full w])
  case (failed msg)
  then show ?thesis by simp
next
  case (looped w1 rd sb cs w2 evs ex tail)
  note inv = candidates_loop_accepts [OF looped(1)]
  have tail: "accepted tail = []" "applications tail = []" "after_accept tail = []"
    using looped(4) by auto
  have acc: "accepted (snd (process_repo env full w)) = accepted evs"
    by (simp add: looped(2) accepted_append tail)
  have "after_accept (snd (process_repo env full w))
          = (if accepted evs = [] then [] else tail)"
    using inv tail by (auto simp: looped(2) after_accept_append)
  then show ?thesis using inv acc tail by auto
qed

lemma de_process_repo_decisions:
  "length (decisions (snd (de_process_repo env full w))) \<le> 1
   \<and> list_all (\<lambda>(a, d). a \<longleftrightarrow> de_IMPROVEMENT_MARGIN \<le> d)
        (decisions (snd (de_process_repo env full w)))"
proof -
  have "\<exists>evs r w1. de_process_body env full w = (w1, evs, r)
          \<and> (evs = [] \<or> evs = [Log ''Clone failed'']
              \<or> (\<exists>d. evs = [Decided (de_IMPROVEMENT_MARGIN \<le> d) d]))"
    by (auto simp: de_process_body_def Let_def split: sum.splits option.splits prod.splits)
  then obtain evs r w1 where body: "de_process_body env full w = (w1, evs, r)"
    and shape: "evs = [] \<or> evs = [Log ''Clone failed'']
              \<or> (\<exists>d. evs = [Decided (de_IMPROVEMENT_MARGIN \<le> d) d])"
    by blast
  have "decisions (snd (de_process_repo env full w)) = decisions evs"
    using body shape by (cases r) (auto simp: de_process_repo_def)
  with shape show ?thesis by auto
qed

text \<open>
  Claim C4. In one call of \<open>process_repo\<close> at most one candidate is accepted; an
  accepted candidate's delta against the baseline score is at least
  \<open>IMPROVEMENT_MARGIN\<close>, which is 5.0 when the configuration does not set it; and after
  an acceptance no further candidate is applied. In \<open>kai_decision_engine.py\<close> there is
  one decision per repository, and it accepts exactly when the delta is at least 5.0.
\<close>

theorem at_most_one_accept:
  "length (accepted (snd (process_repo env full w))) \<le> 1
   \<and> list_all (\<lambda>(c, d). IMPROVEMENT_MARGIN env \<le> d) (accepted (snd (process_repo env full w)))
   \<and> applications (after_accept (snd (process_repo env full w))) = []
   \<and> IMPROVEMENT_MARGIN (env\<lparr>margin_cfg := None\<rparr>) = 5
   \<and> length (decisions (snd (de_process_repo env full w))) \<le> 1
   \<and> list_all (\<lambda>(a, d). a \<longleftrightarrow> 5 \<le> d) (decisions (snd (de_process_repo env full w)))"
  using process_repo_accepts [of env full w] de_process_repo_decisions [of env full w]
  by (simp add: IMPROVEMENT_MARGIN_def de_IMPROVEMENT_MARGIN_def)

lemma sample_accepts:
  "accepted (snd (process_repo sample_env ''owner/repo'' sample_world)) = [(second_candidate, 100)]"
  by code_simp

lemma sample_decisions:
  "decisions (snd (de_process_repo sample_env ''owner/repo'' sample_world)) = [(False, 0)]"
  by code_simp

theorem at_most_one_accept_witness:
  "accepted (snd (process_repo sample_env ''owner/repo'' sample_world)) = [(second_candidate, 100)]
   \<and> IMPROVEMENT_MARGIN sample_env = 5
   \<and> applications (after_accept (snd (process_repo sample_env ''owner/repo'' sample_world))) = []
   \<and> decisions (snd (de_process_repo sample_env ''owner/repo'' sample_world)) = [(False, 0)]"
  using at_most_one_accept [of sample_env "''owner/repo''" sample_world] sample_accepts
    sample_decisions
  by (simp add: IMPROVEMENT_MARGIN_def sample_env_def)



lemma guarded_append:
  "guarded ok (a @ b) = (guarded ok a \<and> guarded (clear_after ok a) b)"
  by (induction ok a rule: guarded.induct) auto

lemma repos_processed_append:
  "repos_processed (a @ b) = repos_processed a @ repos_processed b"
  by (induction a rule: repos_processed.induct) simp_all

lemma quiet_append: "quiet (a @ b) = (quiet a \<and> quiet b)"
  by (auto simp: quiet_def applications_append repos_processed_append)

lemma halted_append:
  "halted (a @ b) = (if KillCheck True \<in> set a then halted a \<and> quiet b else halted b)"
  by (induction a rule: halted.induct) (auto simp: quiet_append)

lemma candidates_loop_killed_at_once:
  "kill_present env (checks w) \<Longrightarrow>
     candidates_loop env full rd sb (cand # rest) w
       = (w\<lparr>checks := Suc (checks w)\<rparr>,
          [KillCheck True, Log ''KILL switch present - aborting run.''], Killed)"
  by (simp add: check_kill_cases)

lemma repos_loop_killed_at_once:
  "kill_present env (checks w) \<Longrightarrow>
     repos_loop env (full # others) w
       = (w\<lparr>checks := Suc (checks w)\<rparr>,
          [KillCheck True, Log ''KILL switch present - aborting run.''])"
  by (simp add: check_kill_cases)

lemma candidates_loop_guarded:
  "candidates_loop env full rd sb cs w = (w', evs, ex) \<Longrightarrow>
     guarded ok evs
     \<and> halted evs
     \<and> (persistent env \<longrightarrow> KillCheck True \<in> set evs \<longrightarrow> kill_present env (checks w'))"
proof (induction cs arbitrary: w w' evs ex ok)
  case Nil
  then show ?case by auto
next
  case (Cons cand rest)
  show ?case
  proof (cases "kill_present env (checks w)")
    case True
    with Cons.prems show ?thesis
      by (auto simp: check_kill_cases quiet_def persistent_def)
  next
    case False
    obtain w2 evs2 v where tc:
      "try_candidate env full rd sb cand (w\<lparr>checks := Suc (checks w)\<rparr>) = (w2, evs2, v)"
      by (cases "try_candidate env full rd sb cand (w\<lparr>checks := Suc (checks w)\<rparr>)") auto
    from try_candidate_shape(4) [OF tc] obtain st k others where
      evs2: "evs2 = Apply cand st k # others" and others: "guarded False others"
        "applications others = []" "repos_processed others = []"
      by blast
    have rest_plain: "KillCheck True \<notin> set others" "halted others"
      using tc evs2
      by (auto simp: try_candidate_def Let_def split: prod.splits sum.splits if_splits)
    obtain w3 evs3 ex3 where rec:
      "candidates_loop env full rd sb rest w2 = (w3, evs3, ex3)"
      by (cases "candidates_loop env full rd sb rest w2") auto
    have "evs = KillCheck False # evs2 \<and> w' = w2
          \<or> evs = KillCheck False # evs2 @ evs3 \<and> w' = w3"
      using Cons.prems False tc rec by (cases v) (auto simp: check_kill_cases)
    then show ?thesis
    proof
      assume "evs = KillCheck False # evs2 \<and> w' = w2"
      then show ?thesis using evs2 others rest_plain by auto
    next
      assume a: "evs = KillCheck False # evs2 @ evs3 \<and> w' = w3"
      note ih = Cons.IH [OF rec, of "clear_after False others"]
      have "guarded ok evs"
        using a evs2 others(1) ih by (simp add: guarded_append)
      moreover have "halted evs"
        using a evs2 rest_plain ih by (simp add: halted_append)
      moreover have "persistent env \<longrightarrow> KillCheck True \<in> set evs
          \<longrightarrow> kill_present env (checks w')"
        using a evs2 rest_plain ih by auto
      ultimately show ?thesis by blast
    qed
  qed
qed

lemma process_repo_guarded:
  "\<exists>evs. snd (process_repo env full w) = ProcessRepo full # evs
     \<and> guarded False evs \<and> halted evs
     \<and> (persistent env \<longrightarrow> KillCheck True \<in> set evs
          \<longrightarrow> kill_present env (checks (fst (process_repo env full w))))"
proof (cases rule: process_repo_cases [of env full w])
  case (failed msg)
  then show ?thesis by simp
next
  case (looped w1 rd sb cs w2 evs ex tail)
  note inv = candidates_loop_guarded [OF looped(1), of False]
  have "guarded False (evs @ tail)"
    using inv looped(4) by (auto simp: guarded_append)
  moreover have "halted (evs @ tail)"
    using inv looped(4) by (auto simp: halted_append quiet_def)
  moreover have "KillCheck True \<in> set (evs @ tail) \<longleftrightarrow> KillCheck True \<in> set evs"
    using looped(4) by auto
  ultimately show ?thesis using looped(2,3) inv by auto
qed

lemma repos_loop_guarded:
  "repos_loop env rs w = (w', evs) \<Longrightarrow>
     guarded ok evs
     \<and> (persistent env \<longrightarrow>
          halted evs
          \<and> (kill_present env (checks w) \<or> KillCheck True \<in> set evs
             \<longrightarrow> kill_present env (checks w'))
          \<and> (kill_present env (checks w) \<longrightarrow> quiet evs))"
proof (induction rs arbitrary: w w' evs ok)
  case Nil
  then show ?case by (auto simp: quiet_def)
next
  case (Cons full others)
  show ?case
  proof (cases "kill_present env (checks w)")
    case True
    with Cons.prems show ?thesis
      by (auto simp: check_kill_cases quiet_def persistent_def)
  next
    case False
    let ?w1 = "w\<lparr>checks := Suc (checks w)\<rparr>"
    obtain w2 evs2 where pr: "process_repo env full ?w1 = (w2, evs2)"
      by (cases "process_repo env full ?w1") auto
    from process_repo_guarded [of env full ?w1] pr obtain inner where
      evs2: "evs2 = ProcessRepo full # inner" and inner: "guarded False inner" "halted inner"
        "persistent env \<longrightarrow> KillCheck True \<in> set inner \<longrightarrow> kill_present env (checks w2)"
      by auto
    obtain w3 evs3 where rec: "repos_loop env others w2 = (w3, evs3)"
      by (cases "repos_loop env others w2") auto
    note ih = Cons.IH [OF rec, of "clear_after False inner"]
    have evs: "evs = KillCheck False # ProcessRepo full # inner @ evs3" and w': "w' = w3"
      using Cons.prems False pr rec evs2 by (auto simp: check_kill_cases)
    have "guarded ok evs"
      using evs inner(1) ih by (simp add: guarded_append)
    moreover have "halted evs" if "persistent env"
      using that evs inner ih by (auto simp: halted_append)
    moreover have "kill_present env (checks w')"
      if "persistent env" "KillCheck True \<in> set evs"
      using that evs w' inner ih by auto
    ultimately show ?thesis using False by blast
  qed
qed

lemma main_guarded:
  "guarded False (snd (snd (main env w)))
   \<and> (persistent env \<longrightarrow> halted (snd (snd (main env w))))"
proof (cases "kill_present env (checks w)")
  case True
  then show ?thesis by (simp add: main_def check_kill_cases quiet_def)
next
  case False
  let ?w1 = "w\<lparr>checks := Suc (checks w)\<rparr>"
  show ?thesis
  proof (cases "\<exists>allow. config_load env = Inr ()
        \<and> \<not> falsy (py_or (environ env ''KAI_PAT'') (environ env ''GITHUB_TOKEN''))
        \<and> read_allowlist (files ?w1) (cwd env) = Inr allow \<and> allow \<noteq> []")
    case True
    then obtain allow where run: "config_load env = Inr ()"
        "\<not> falsy (py_or (environ env ''KAI_PAT'') (environ env ''GITHUB_TOKEN''))"
        "read_allowlist (files ?w1) (cwd env) = Inr allow" "allow \<noteq> []"
      by blast
    obtain w2 evs2 where lp: "repos_loop env allow ?w1 = (w2, evs2)"
      by (cases "repos_loop env allow ?w1") auto
    note inv = repos_loop_guarded [OF lp, of True]
    have evs: "snd (snd (main env w)) = KillCheck False # evs2 @ [Log ''Agent run finished.'']"
      using False run lp by (simp add: main_def check_kill_cases)
    show ?thesis
      using inv by (auto simp: evs guarded_append halted_append quiet_def)
  next
    case stop: False
    have "\<exists>tail. snd (snd (main env w)) = KillCheck False # tail
        \<and> (tail = [] \<or> (\<exists>msg. tail = [Log msg]))"
      using False stop
      by (auto simp: main_def check_kill_cases Let_def split: sum.splits)
    then show ?thesis by auto
  qed
qed

text \<open>
  Claim C5. In every run of \<open>main\<close>, each application of a candidate and each start of a
  repository comes directly after a kill-switch check that found no sentinel. When the
  sentinel exists at the check before a candidate, the candidate loop returns at once
  without applying it; when it exists at the check before a repository, the loop over
  the allowlist ends at once. With a sentinel that stays once it exists, nothing is
  applied and no repository is started after the first check that finds it.
\<close>

theorem kill_switch_respected:
  "guarded False (snd (snd (main env w)))
   \<and> (persistent env \<longrightarrow> halted (snd (snd (main env w))))
   \<and> (kill_present env (checks w1) \<longrightarrow>
        candidates_loop env full rd sb (cand # rest) w1
          = (w1\<lparr>checks := Suc (checks w1)\<rparr>,
             [KillCheck True, Log ''KILL switch present - aborting run.''], Killed)
        \<and> repos_loop env (full # others) w1
          = (w1\<lparr>checks := Suc (checks w1)\<rparr>,
             [KillCheck True, Log ''KILL switch present - aborting run.'']))"
  using main_guarded [of env w] candidates_loop_killed_at_once [of env w1 full rd sb cand rest]
    repos_loop_killed_at_once [of env w1 full others]
  by blast

lemma killed_run:
  "applications (snd (snd (main killed_env sample_world))) = []
   \<and> repos_processed (snd (snd (main killed_env sample_world))) = [''owner/repo'']"
  by code_simp

theorem kill_switch_respected_witness:
  "persistent killed_env
   \<and> kill_present killed_env (checks (sample_world\<lparr>checks := 2\<rparr>))
   \<and> halted (snd (snd (main killed_env sample_world)))
   \<and> guarded False (snd (snd (main killed_env sample_world)))
   \<and> applications (snd (snd (main killed_env sample_world))) = []
   \<and> snd (snd (candidates_loop killed_env ''owner/repo'' (PPath False [''_kai_work'', ''repo''])
              0 [first_candidate, second_candidate] (sample_world\<lparr>checks := 2\<rparr>))) = Killed"
proof -
  have p: "persistent killed_env"
    by (simp add: persistent_def killed_env_def)
  have k: "kill_present killed_env (checks (sample_world\<lparr>checks := 2\<rparr>))"
    by (simp add: killed_env_def)
  show ?thesis
    using kill_switch_respected [of killed_env sample_world "sample_world\<lparr>checks := 2\<rparr>"
        "''owner/repo''" "PPath False [''_kai_work'', ''repo'']" 0 first_candidate
        "[second_candidate]" "[]"] p k killed_run
    by simp
qed



section \<open>Results about applying a candidate\<close>



lemma resolve_plain:
  "''..'' \<notin> set ds \<Longrightarrow> foldl step_path start ds = start @ ds"
  by (induction ds arbitrary: start) (auto simp: step_path_def)

lemma mkdir_parents_plain:
  assumes "''..'' \<notin> set cs" and "mkdir_parents fs cur cs = (fs1, res)"
  shows "(\<forall>p. fs1 p \<noteq> fs p \<longrightarrow>
            fs p = None \<and> fs1 p = Some Dir \<and> strict_prefix cur p \<and> prefix p (cur @ cs))
         \<and> (\<forall>dir. res = Inr dir \<longrightarrow> dir = cur @ cs)"
  using assms
proof (induction cs arbitrary: fs cur)
  case Nil
  then show ?case by auto
next
  case (Cons c cs)
  let ?nxt = "cur @ [c]"
  have step: "step_path cur c = ?nxt" using Cons.prems(1) by (auto simp: step_path_def)
  have up: "strict_prefix cur p \<and> prefix p (cur @ c # cs)"
    if "strict_prefix ?nxt p \<and> prefix p (?nxt @ cs)" for p
    using that by (auto simp: strict_prefix_def prefix_def)
  show ?case
  proof (cases "is_dir fs ?nxt")
    case True
    with Cons.prems step have rec: "mkdir_parents fs ?nxt cs = (fs1, res)"
      by (simp add: Let_def)
    from Cons.IH [OF _ rec] Cons.prems(1) up show ?thesis by auto
  next
    case nodir: False
    show ?thesis
    proof (cases "exists_path fs ?nxt")
      case True
      with Cons.prems step nodir show ?thesis by (auto simp: Let_def)
    next
      case False
      then have none: "fs ?nxt = None" by (simp add: exists_path_def)
      from Cons.prems step nodir False
      have rec: "mkdir_parents (fs(?nxt \<mapsto> Dir)) ?nxt cs = (fs1, res)"
        by (simp add: Let_def)
      have ih: "(\<forall>p. fs1 p \<noteq> (fs(?nxt \<mapsto> Dir)) p \<longrightarrow>
            (fs(?nxt \<mapsto> Dir)) p = None \<and> fs1 p = Some Dir \<and> strict_prefix ?nxt p
              \<and> prefix p (?nxt @ cs))
         \<and> (\<forall>dir. res = Inr dir \<longrightarrow> dir = ?nxt @ cs)"
        using Cons.IH [OF _ rec] Cons.prems(1) by simp
      have "fs p = None \<and> fs1 p = Some Dir \<and> strict_prefix cur p \<and> prefix p (cur @ c # cs)"
        if diff: "fs1 p \<noteq> fs p" for p
      proof (cases "fs1 p = (fs(?nxt \<mapsto> Dir)) p")
        case True
        with diff have "p = ?nxt" by (auto split: if_splits)
        with True none show ?thesis by (auto simp: strict_prefix_def prefix_def)
      next
        case False
        with ih have a: "(fs(?nxt \<mapsto> Dir)) p = None" "fs1 p = Some Dir"
            "strict_prefix ?nxt p \<and> prefix p (?nxt @ cs)"
          by auto
        from a(1) have "fs p = None" by (auto split: if_splits)
        with a up show ?thesis by auto
      qed
      with ih show ?thesis by auto
    qed
  qed
qed


lemma safe_write_file_confined:
  assumes ds: "''..'' \<notin> set ds" and qs: "''..'' \<notin> set qs"
    and parsed: "parse_path r = PPath False qs"
    and run: "safe_write_file fs wd (PPath a ds) (JStr r) content = (fs2, res)"
    and diff: "fs2 p \<noteq> fs p"
  shows "prefix ((if a then [] else wd) @ ds) p
       \<or> (strict_prefix p ((if a then [] else wd) @ ds) \<and> fs p = None \<and> fs2 p = Some Dir)"
proof -
  let ?start = "if a then [] else wd"
  let ?ps = "ds @ qs"
  obtain fs1 r1 where mk: "mkdir_parents fs ?start (butlast ?ps) = (fs1, r1)"
    by (cases "mkdir_parents fs ?start (butlast ?ps)") auto
  have nodots: "''..'' \<notin> set (butlast ?ps)"
    using ds qs by (auto dest: in_set_butlastD)
  note frame = mkdir_parents_plain [OF nodots mk]
  have nonul: "\<not> has_nul (butlast ?ps)"
    using run diff parsed by (auto simp: safe_write_file_def split: if_splits)
  have made: "prefix (?start @ ds) q \<or> (strict_prefix q (?start @ ds))"
    if "prefix q (?start @ butlast ?ps)" for q
  proof -
    have "prefix q (?start @ ?ps)"
      using that prefix_order.trans [of q "?start @ butlast ?ps" "?start @ ?ps"]
      by (metis append_butlast_last_id append_Nil2 butlast.simps(1) prefix_append prefixI same_prefix_prefix)
    moreover have "prefix (?start @ ds) (?start @ ?ps)" by simp
    ultimately have "prefix q (?start @ ds) \<or> prefix (?start @ ds) q"
      using prefix_same_cases by blast
    then show ?thesis by (auto simp: strict_prefix_def)
  qed
  show ?thesis
  proof (cases "fs1 p = fs p")
    case False
    with frame have a: "fs p = None" "fs1 p = Some Dir" "prefix p (?start @ butlast ?ps)"
      by auto
    have "fs2 p = Some Dir"
      using run mk a(2) parsed nonul
      by (auto simp: safe_write_file_def is_dir_def split: if_splits sum.splits json.splits)
    with a made [OF a(3)] show ?thesis by auto
  next
    case True
    with diff have changed: "fs2 p \<noteq> fs1 p" by simp
    have "\<exists>dir. r1 = Inr dir \<and> ?ps \<noteq> [] \<and> p = step_path dir (last ?ps)"
      using run mk parsed changed nonul
      by (auto simp: safe_write_file_def split: if_splits sum.splits json.splits)
    then have "?ps \<noteq> []" and "p = step_path (?start @ butlast ?ps) (last ?ps)"
      using frame by auto
    moreover have "last ?ps \<noteq> ''..''"
      using \<open>?ps \<noteq> []\<close> ds qs last_in_set [of ?ps] by auto
    ultimately have "p = ?start @ ?ps"
      by (simp add: step_path_def)
    then show ?thesis by simp
  qed
qed


lemma apply_candidate_steps:
  "fst (apply_candidate fs wd rd cand) p \<noteq> fs p \<Longrightarrow>
     \<exists>f c. subscript cand ''file'' = Inr f
       \<and> fst (apply_candidate fs wd rd cand) = fst (safe_write_file fs wd rd f c)"
  by (auto simp: apply_candidate_def split: sum.splits prod.splits) (metis fst_conv)+

text \<open>
  Claim C1, as amended. \<open>apply_candidate\<close> does not validate the path: it writes to the
  join of the working copy and \<open>candidate.file\<close>. When that file name is a relative
  path without \<open>..\<close> (and the working copy's own path has no \<open>..\<close>), every path
  \<open>apply_candidate\<close> changes lies at or below the working-copy root, or is a missing
  directory above the root that \<open>mkdir\<close> creates.
\<close>

theorem candidate_write_confined:
  assumes "confined_candidate cand" and "''..'' \<notin> set ds"
    and "fst (apply_candidate fs wd (PPath a ds) cand) p \<noteq> fs p"
  shows "prefix (resolve wd (PPath a ds)) p
       \<or> (strict_prefix p (resolve wd (PPath a ds)) \<and> fs p = None
           \<and> fst (apply_candidate fs wd (PPath a ds) cand) p = Some Dir)"
proof -
  note ds = assms(2)
  from apply_candidate_steps [OF assms(3)] obtain f c where
    f: "subscript cand ''file'' = Inr f"
    and eq: "fst (apply_candidate fs wd (PPath a ds) cand)
               = fst (safe_write_file fs wd (PPath a ds) f c)"
    by blast
  have changed: "fst (safe_write_file fs wd (PPath a ds) f c) p \<noteq> fs p"
    using assms(3) eq by simp
  then obtain r where r: "f = JStr r"
    by (cases f) (auto simp: safe_write_file_def)
  obtain b qs where parsed: "parse_path r = PPath b qs" by (cases "parse_path r") auto
  have inside: "\<not> b" "''..'' \<notin> set qs"
    using assms(1) f r parsed by (auto simp: confined_candidate_def stays_inside_def)
  obtain fs2 res where run: "safe_write_file fs wd (PPath a ds) (JStr r) c = (fs2, res)"
    by (cases "safe_write_file fs wd (PPath a ds) (JStr r) c") auto
  have "prefix ((if a then [] else wd) @ ds) p
       \<or> (strict_prefix p ((if a then [] else wd) @ ds) \<and> fs p = None \<and> fs2 p = Some Dir)"
    using safe_write_file_confined [OF ds inside(2) _ run] parsed inside(1) changed r run
    by simp
  then show ?thesis
    using eq r run by (simp add: resolve_plain [OF ds])
qed

lemma sample_write:
  "fst (apply_candidate cloned_files [''home''] (PPath False [''_kai_work'', ''repo''])
          first_candidate) [''home'', ''_kai_work'', ''repo'', ''fixed.py'']
     = Some (File ''x = 1'')
   \<and> cloned_files [''home'', ''_kai_work'', ''repo'', ''fixed.py''] = None"
  by code_simp

theorem candidate_write_confined_witness:
  "confined_candidate first_candidate
   \<and> ''..'' \<notin> set [''_kai_work'', ''repo'']
   \<and> fst (apply_candidate cloned_files [''home''] (PPath False [''_kai_work'', ''repo''])
            first_candidate) [''home'', ''_kai_work'', ''repo'', ''fixed.py'']
       \<noteq> cloned_files [''home'', ''_kai_work'', ''repo'', ''fixed.py'']
   \<and> prefix (resolve [''home''] (PPath False [''_kai_work'', ''repo'']))
        [''home'', ''_kai_work'', ''repo'', ''fixed.py'']"
proof -
  have a: "confined_candidate first_candidate" by code_simp
  have b: "''..'' \<notin> set [''_kai_work'', ''repo'']" by simp
  have c: "fst (apply_candidate cloned_files [''home''] (PPath False [''_kai_work'', ''repo''])
            first_candidate) [''home'', ''_kai_work'', ''repo'', ''fixed.py'']
       \<noteq> cloned_files [''home'', ''_kai_work'', ''repo'', ''fixed.py'']"
    using sample_write by simp
  have d: "\<not> strict_prefix [''home'', ''_kai_work'', ''repo'', ''fixed.py'']
             (resolve [''home''] (PPath False [''_kai_work'', ''repo'']))"
    by (simp add: step_path_def)
  show ?thesis
    using candidate_write_confined [OF a b c] a b c d by blast
qed

text \<open>
  Against claim C1 as stated: a candidate whose file is \<open>../../escaped.txt\<close>, and one
  whose file is the absolute path \<open>/etc/escaped.txt\<close>, are applied with success and
  write their content outside the working copy \<open>home/_kai_work/repo\<close>.
\<close>

theorem candidate_write_escapes:
  "fst (apply_candidate cloned_files [''home''] (PPath False [''_kai_work'', ''repo''])
          escaping_candidate) [''home'', ''escaped.txt''] = Some (File ''x'')
   \<and> cloned_files [''home'', ''escaped.txt''] = None
   \<and> snd (apply_candidate cloned_files [''home''] (PPath False [''_kai_work'', ''repo''])
          escaping_candidate)
   \<and> \<not> prefix (resolve [''home''] (PPath False [''_kai_work'', ''repo'']))
          [''home'', ''escaped.txt'']
   \<and> fst (apply_candidate cloned_files [''home''] (PPath False [''_kai_work'', ''repo''])
          absolute_candidate) [''etc'', ''escaped.txt''] = Some (File ''x'')
   \<and> cloned_files [''etc'', ''escaped.txt''] = None
   \<and> \<not> prefix (resolve [''home''] (PPath False [''_kai_work'', ''repo'']))
          [''etc'', ''escaped.txt'']"
  by code_simp


section \<open>Results about compounding candidates\<close>

lemma revert_restores_clone:
  assumes "git_clone env full (clones w) = Some tree"
  shows "subtree (files (revert_by_reclone env full rd w)) (resolve (cwd env) rd) q
           = (if q = [] then Some Dir else tree q)"
  using assms by (simp add: revert_by_reclone_def install_def subtree_def Let_def)

text \<open>
  Claim C3 at a failing input. The first candidate reaches the margin, but its
  publication raises; the handler only logs, and the loop goes on without the fresh
  clone that the rejection branch makes (lemma \<open>revert_restores_clone\<close>). The second
  candidate is applied to a working copy that still holds \<open>fixed.py\<close>, which the
  baseline clone does not have, and is accepted on the strength of it.
\<close>

theorem rejected_changes_compound:
  "applications (snd (process_repo sample_env ''owner/repo'' sample_world))
     = [first_candidate, second_candidate]
   \<and> accepted (snd (process_repo sample_env ''owner/repo'' sample_world))
     = [(second_candidate, 100)]
   \<and> map (\<lambda>st. st [''fixed.py'']) (applied_to (snd (process_repo sample_env ''owner/repo'' sample_world)))
     = [None, Some (File ''x = 1'')]
   \<and> sample_tree [''fixed.py''] = None"
  by code_simp


section \<open>Results about the planner\<close>





end
